theory Spec2Isabelle
  imports Main
begin

section \<open>Shared data\<close>

text \<open>
  The two units verified here are \<^verbatim>\<open>BufferedEventStream\<close>
  (core/src/enterprise/buffered-event-stream.ts) and \<^verbatim>\<open>GardenServer\<close>
  (the server module). Objects become records, mutation becomes state passing, a thrown
  exception is the \<open>Inl\<close> branch of a sum.
\<close>

type_synonym EventName = string

datatype JsError = TypeError | Rejected string

datatype json =
    JNull
  | JBool bool
  | JNum int
  | JStr string
  | JArr "json list"
  | JObj "(string \<times> json) list"

text \<open>
  \<^verbatim>\<open>Events[T]\<close>: the payload type of event \<open>T\<close>. The only payload the stream looks
  into is the one of \<^verbatim>\<open>_workflowRunRegistered\<close>, which is \<^verbatim>\<open>{ workflowRunUid: string }\<close>;
  every other payload is opaque data.
\<close>

datatype Events = WorkflowRunRegistered string | EventPayload json

text \<open>Reading \<^verbatim>\<open>payload.workflowRunUid\<close>; a payload without the field reads as undefined.\<close>

fun payload_workflowRunUid :: "Events \<Rightarrow> string option" where
  "payload_workflowRunUid (WorkflowRunRegistered uid) = Some uid"
| "payload_workflowRunUid (EventPayload _) = None"

record StreamEvent =
  ev_name :: EventName
  ev_payload :: Events
  ev_timestamp :: nat

datatype LogMsg = Msg string | Msgs "string list"

record LogEntryEvent =
  le_key :: string
  le_parentKey :: "string option"
  le_revision :: int
  le_msg :: LogMsg
  le_timestamp :: nat
  le_level :: nat
  le_data :: "json option"
  le_section :: "string option"
  le_metadata :: "json option"

record StreamTarget =
  host :: string
  clientAuthToken :: string

text \<open>
  A \<^verbatim>\<open>Garden\<close> instance, as far as the two units read it. \<open>gardenId\<close> is the
  object's identity; it also names the instance's event bus \<^verbatim>\<open>garden.events\<close>.
\<close>

record Garden =
  gardenId :: nat
  projectId :: "string option"
  environmentName :: string
  namespace :: string

record GardenEnv =
  GARDEN_WORKFLOW_RUN_UID :: "string option"

record ApiEventBatch =
  eb_events :: "StreamEvent list"
  eb_workflowRunUid :: "string option"
  eb_sessionId :: string
  eb_projectUid :: "string option"
  eb_environment :: string
  eb_namespace :: string

record ApiLogBatch =
  lb_logEntries :: "LogEntryEvent list"
  lb_workflowRunUid :: "string option"
  lb_sessionId :: string
  lb_projectUid :: "string option"

datatype PostData = EventBatch ApiEventBatch | LogBatch ApiLogBatch

text \<open>
  One call of \<^verbatim>\<open>got.post(url, { json: data, headers })\<close>: a delivery attempt. The
  header is \<^verbatim>\<open>makeAuthHeader(target.clientAuthToken)\<close>; the attempt records the token.
\<close>

record HttpPost =
  post_url :: string
  post_authToken :: string
  post_json :: PostData

fun post_workflowRunUid :: "PostData \<Rightarrow> string option" where
  "post_workflowRunUid (EventBatch b) = eb_workflowRunUid b"
| "post_workflowRunUid (LogBatch b) = lb_workflowRunUid b"

fun post_events :: "PostData \<Rightarrow> StreamEvent list" where
  "post_events (EventBatch b) = eb_events b"
| "post_events (LogBatch b) = []"

fun post_logEntries :: "PostData \<Rightarrow> LogEntryEvent list" where
  "post_logEntries (EventBatch b) = []"
| "post_logEntries (LogBatch b) = lb_logEntries b"

section \<open>The event bus\<close>

text \<open>
  A listener is a closure; two closures are the same listener only when they are the same
  object. \<open>StreamListener k n\<close> is the \<open>k\<close>-th closure
  \<^verbatim>\<open>(payload) => this.streamEvent(n, payload)\<close> made by the stream,
  \<open>ServersUpdatedListener\<close> the server's one \<^verbatim>\<open>serversUpdatedListener\<close>,
  \<open>SocketEventListener c\<close> the \<^verbatim>\<open>eventListener\<close> of socket connection \<open>c\<close>.
\<close>

datatype Listener =
    StreamListener nat EventName
  | ServersUpdatedListener
  | SocketEventListener nat
  | OtherListener nat

record EventBus =
  listeners :: "(EventName \<times> Listener) list"
  anyListeners :: "Listener list"

definition EventBus_new :: EventBus where
  "EventBus_new = \<lparr>listeners = [], anyListeners = []\<rparr>"

text \<open>
  Modelled from the spec: the \<^verbatim>\<open>EventBus\<close> class (../events) is not among the sources.
  Section 4.1: listeners register for a named event or for any event, and a publish
  invokes all current listeners in registration order. \<open>EventBus_on\<close> registers a
  listener for a name.
\<close>

definition EventBus_on :: "EventName \<Rightarrow> Listener \<Rightarrow> EventBus \<Rightarrow> EventBus" where
  "EventBus_on n l bus = bus\<lparr>listeners := listeners bus @ [(n, l)]\<rparr>"

text \<open>
  Modelled from the spec: \<^verbatim>\<open>removeListener(name, listener)\<close> of the absent
  \<^verbatim>\<open>EventBus\<close> takes one registration of that listener for that name away, if there is one.
\<close>

definition EventBus_removeListener :: "EventName \<Rightarrow> Listener \<Rightarrow> EventBus \<Rightarrow> EventBus" where
  "EventBus_removeListener n l bus = bus\<lparr>listeners := remove1 (n, l) (listeners bus)\<rparr>"

text \<open>
  Modelled from the spec: \<^verbatim>\<open>onAny(listener)\<close> of the absent \<^verbatim>\<open>EventBus\<close> registers
  a listener for every event.
\<close>

definition EventBus_onAny :: "Listener \<Rightarrow> EventBus \<Rightarrow> EventBus" where
  "EventBus_onAny l bus = bus\<lparr>anyListeners := anyListeners bus @ [l]\<rparr>"

text \<open>
  Modelled from the spec: \<^verbatim>\<open>offAny(listener)\<close> of the absent \<^verbatim>\<open>EventBus\<close> takes
  one any-event registration of that listener away, if there is one.
\<close>

definition EventBus_offAny :: "Listener \<Rightarrow> EventBus \<Rightarrow> EventBus" where
  "EventBus_offAny l bus = bus\<lparr>anyListeners := remove1 l (anyListeners bus)\<rparr>"

text \<open>
  Modelled from the spec: \<^verbatim>\<open>emit(name, payload)\<close> of the absent \<^verbatim>\<open>EventBus\<close>. The
  result lists the listeners the publish invokes, in order: the any-event listeners, then
  the listeners registered for the name. With no listener it is empty (a no-op).
\<close>

definition EventBus_emit :: "EventName \<Rightarrow> EventBus \<Rightarrow> Listener list" where
  "EventBus_emit n bus = anyListeners bus @ map snd (filter (\<lambda>r. fst r = n) (listeners bus))"

text \<open>
  What lies outside the objects: the event bus of every \<^verbatim>\<open>Garden\<close> instance (by
  \<open>gardenId\<close>), the interval timers that are running, the number of
  \<^verbatim>\<open>log.error\<close> calls made, and a counter that numbers new closures and timers.
\<close>

record World =
  buses :: "nat \<Rightarrow> EventBus"
  activeTimers :: "nat set"
  loggedErrors :: nat
  nextId :: nat

section \<open>BufferedEventStream\<close>

record BufferedEventStream =
  sessionId :: string
  targets :: "StreamTarget list"
  garden :: "Garden option"
  workflowRunUid :: "string option"
  gardenEventListeners :: "(EventName \<times> Listener) list option"
  intervalId :: "nat option"
  bufferedEvents :: "StreamEvent list"
  bufferedLogEntries :: "LogEntryEvent list"
  intervalMsec :: nat
  maxBatchSize :: int

text \<open>
  The constructor. \<open>garden\<close>, \<open>workflowRunUid\<close>, \<open>gardenEventListeners\<close> and
  \<open>intervalId\<close> are not assigned: they start undefined. The constructor also subscribes
  \<^verbatim>\<open>streamLogEntry\<close> to the logger's own bus; the logger's emissions are the
  \<^verbatim>\<open>streamLogEntry\<close> calls of a run.
\<close>

definition BufferedEventStream_new :: "string \<Rightarrow> BufferedEventStream" where
  "BufferedEventStream_new sid =
     \<lparr>sessionId = sid, targets = [], garden = None, workflowRunUid = None,
      gardenEventListeners = None, intervalId = None, bufferedEvents = [],
      bufferedLogEntries = [], intervalMsec = 1000, maxBatchSize = 100\<rparr>"

definition controlEventNames :: "EventName set" where
  "controlEventNames = {''_workflowRunRegistered''}"

definition handleControlEvent :: "EventName \<Rightarrow> Events \<Rightarrow> BufferedEventStream \<Rightarrow> BufferedEventStream" where
  "handleControlEvent n p s =
     (if n = ''_workflowRunRegistered'' then s\<lparr>workflowRunUid := payload_workflowRunUid p\<rparr> else s)"

text \<open>\<open>now\<close> is what \<^verbatim>\<open>new Date()\<close> reads.\<close>

definition streamEvent :: "nat \<Rightarrow> EventName \<Rightarrow> Events \<Rightarrow> BufferedEventStream \<Rightarrow> BufferedEventStream" where
  "streamEvent now n p s =
     (if n \<in> controlEventNames then handleControlEvent n p s
      else s\<lparr>bufferedEvents := bufferedEvents s @ [\<lparr>ev_name = n, ev_payload = p, ev_timestamp = now\<rparr>]\<rparr>)"

definition streamLogEntry :: "LogEntryEvent \<Rightarrow> BufferedEventStream \<Rightarrow> BufferedEventStream" where
  "streamLogEntry logEntry s = s\<lparr>bufferedLogEntries := bufferedLogEntries s @ [logEntry]\<rparr>"

text \<open>
  \<^verbatim>\<open>gardenEnv.GARDEN_WORKFLOW_RUN_UID || this.workflowRunUid\<close>: the left operand wins
  when it is truthy, that is a non-empty string.
\<close>

definition getWorkflowRunUid :: "GardenEnv \<Rightarrow> BufferedEventStream \<Rightarrow> string option" where
  "getWorkflowRunUid env s =
     (case GARDEN_WORKFLOW_RUN_UID env of
        Some v \<Rightarrow> if v \<noteq> [] then Some v else workflowRunUid s
      | None \<Rightarrow> workflowRunUid s)"

text \<open>\<^verbatim>\<open>x || undefined\<close> for a string or missing \<open>x\<close>.\<close>

definition orUndefined :: "string option \<Rightarrow> string option" where
  "orUndefined x = (case x of Some v \<Rightarrow> if v \<noteq> [] then Some v else None | None \<Rightarrow> None)"

text \<open>
  \<^verbatim>\<open>postToTargets\<close>: \<^verbatim>\<open>Bluebird.map\<close> calls the mapper on every target before any
  request settles, so each target of the list gets one attempt, in list order.
\<close>

definition postToTargets :: "string \<Rightarrow> PostData \<Rightarrow> BufferedEventStream \<Rightarrow> HttpPost list" where
  "postToTargets path d s =
     map (\<lambda>t. \<lparr>post_url = host t @ ''/'' @ path, post_authToken = clientAuthToken t, post_json = d\<rparr>)
       (targets s)"

text \<open>
  \<^verbatim>\<open>flushEvents\<close> reads \<^verbatim>\<open>this.garden.projectId\<close> unguarded: with no garden it
  throws. \<^verbatim>\<open>flushLogEntries\<close> checks the garden first.
\<close>

definition flushEvents :: "GardenEnv \<Rightarrow> StreamEvent list \<Rightarrow> BufferedEventStream \<Rightarrow> JsError + HttpPost list" where
  "flushEvents env events s =
     (if events = [] then Inr []
      else case garden s of
        None \<Rightarrow> Inl TypeError
      | Some g \<Rightarrow>
          Inr (postToTargets ''events''
            (EventBatch \<lparr>eb_events = events, eb_workflowRunUid = getWorkflowRunUid env s,
               eb_sessionId = sessionId s, eb_projectUid = orUndefined (projectId g),
               eb_environment = environmentName g, eb_namespace = namespace g\<rparr>) s))"

definition flushLogEntries :: "GardenEnv \<Rightarrow> LogEntryEvent list \<Rightarrow> BufferedEventStream \<Rightarrow> JsError + HttpPost list" where
  "flushLogEntries env logEntries s =
     (if logEntries = [] then Inr []
      else case garden s of
        None \<Rightarrow> Inr []
      | Some g \<Rightarrow>
          Inr (postToTargets ''log-entries''
            (LogBatch \<lparr>lb_logEntries = logEntries, lb_workflowRunUid = getWorkflowRunUid env s,
               lb_sessionId = sessionId s, lb_projectUid = orUndefined (projectId g)\<rparr>) s))"

text \<open>
  \<^verbatim>\<open>xs.splice(0, deleteCount)\<close>: the count is clamped to \<open>0 .. length xs\<close>; the result
  is the removed prefix and what stays in the array.
\<close>

definition splice0 :: "'a list \<Rightarrow> int \<Rightarrow> 'a list \<times> 'a list" where
  "splice0 xs deleteCount =
     (let k = nat (max 0 (min deleteCount (int (length xs)))) in (take k xs, drop k xs))"

text \<open>The attempts a settled call made, and the error it threw, if any.\<close>

definition attemptsOf :: "JsError + HttpPost list \<Rightarrow> HttpPost list" where
  "attemptsOf r = (case r of Inl _ \<Rightarrow> [] | Inr ps \<Rightarrow> ps)"

definition thrownBy :: "JsError + HttpPost list \<Rightarrow> JsError option" where
  "thrownBy r = (case r of Inl e \<Rightarrow> Some e | Inr _ \<Rightarrow> None)"

text \<open>
  \<^verbatim>\<open>flushBuffered\<close>. The result is the stream after the two \<^verbatim>\<open>splice\<close> calls, the
  delivery attempts started by \<^verbatim>\<open>flushEvents\<close> and \<^verbatim>\<open>flushLogEntries\<close> (both are
  called before \<^verbatim>\<open>Bluebird.all\<close> waits), and the first error thrown, if any. The
  buffers are cut before any request is made.
\<close>

definition flushBuffered :: "GardenEnv \<Rightarrow> bool \<Rightarrow> BufferedEventStream \<Rightarrow> BufferedEventStream \<times> HttpPost list \<times> JsError option" where
  "flushBuffered env flushAll s =
     (if garden s = None \<or> targets s = [] then (s, [], None)
      else
        let (eventsToFlush, restEvents) =
              splice0 (bufferedEvents s)
                (if flushAll then int (length (bufferedEvents s)) else maxBatchSize s);
            s1 = s\<lparr>bufferedEvents := restEvents\<rparr>;
            logEntryFlushCount =
              (if flushAll then int (length (bufferedLogEntries s1))
               else maxBatchSize s1 - int (length (bufferedLogEntries s1)));
            (logEntriesToFlush, restLogEntries) = splice0 (bufferedLogEntries s1) logEntryFlushCount;
            s2 = s1\<lparr>bufferedLogEntries := restLogEntries\<rparr>;
            re = flushEvents env eventsToFlush s2;
            rl = flushLogEntries env logEntriesToFlush s2
        in (s2, attemptsOf re @ attemptsOf rl,
            case thrownBy re of Some e \<Rightarrow> Some e | None \<Rightarrow> thrownBy rl))"

text \<open>
  Whether a flush ends in a rejected promise: an error was thrown, or the remote end
  refused one of the attempts. \<open>net\<close> says which attempts the remote ends accept.
\<close>

definition flushRejected :: "(HttpPost \<Rightarrow> bool) \<Rightarrow> HttpPost list \<times> JsError option \<Rightarrow> bool" where
  "flushRejected net r = (snd r \<noteq> None \<or> \<not> list_all net (fst r))"

definition clearInterval :: "nat \<Rightarrow> World \<Rightarrow> World" where
  "clearInterval t w = w\<lparr>activeTimers := activeTimers w - {t}\<rparr>"

definition logError :: "bool \<Rightarrow> World \<Rightarrow> World" where
  "logError failed w = (if failed then w\<lparr>loggedErrors := Suc (loggedErrors w)\<rparr> else w)"

text \<open>
  One firing of the interval timer:
  \<^verbatim>\<open>this.flushBuffered({ flushAll: false }).catch((err) => this.log.error(err))\<close>.
\<close>

definition intervalTick :: "GardenEnv \<Rightarrow> (HttpPost \<Rightarrow> bool) \<Rightarrow> BufferedEventStream \<times> World \<Rightarrow> (BufferedEventStream \<times> World) \<times> HttpPost list" where
  "intervalTick env net sw =
     (let (s', posts, thrown) = flushBuffered env False (fst sw)
      in ((s', logError (flushRejected net (posts, thrown)) (snd sw)), posts))"

text \<open>\<^verbatim>\<open>close\<close>: the timer is cleared first, then everything is flushed; an error is logged.\<close>

definition close :: "GardenEnv \<Rightarrow> (HttpPost \<Rightarrow> bool) \<Rightarrow> BufferedEventStream \<times> World \<Rightarrow> (BufferedEventStream \<times> World) \<times> HttpPost list" where
  "close env net sw =
     (let s = fst sw; w = snd sw;
          w1 = (case intervalId s of Some t \<Rightarrow> clearInterval t w | None \<Rightarrow> w);
          s1 = s\<lparr>intervalId := None\<rparr>;
          (s2, posts, thrown) = flushBuffered env True s1
      in ((s2, logError (flushRejected net (posts, thrown)) w1), posts))"

text \<open>
  Assignment \<^verbatim>\<open>obj[k] = v\<close> on a plain object whose \<^verbatim>\<open>Object.entries\<close> are
  \<open>m\<close>: an existing key keeps its place and takes the new content, a new key goes last.
\<close>

fun objSet :: "'k \<Rightarrow> 'v \<Rightarrow> ('k \<times> 'v) list \<Rightarrow> ('k \<times> 'v) list" where
  "objSet k v [] = [(k, v)]"
| "objSet k v (e # m) = (if fst e = k then (k, v) # m else e # objSet k v m)"

text \<open>
  The loop of \<^verbatim>\<open>subscribeToGardenEvents\<close> over \<^verbatim>\<open>eventNames\<close>: each round makes
  a new closure (numbered by the counter), stores it under the event name and registers
  it on the bus.
\<close>

fun subscribeLoop :: "EventName list \<Rightarrow> (EventName \<times> Listener) list \<Rightarrow> EventBus \<Rightarrow> nat \<Rightarrow>
    (EventName \<times> Listener) list \<times> EventBus \<times> nat" where
  "subscribeLoop [] m bus k = (m, bus, k)"
| "subscribeLoop (n # ns) m bus k =
     subscribeLoop ns (objSet n (StreamListener k n) m) (EventBus_on n (StreamListener k n) bus) (Suc k)"

text \<open>\<open>eventNames\<close> (../events) is not among the sources: it is a parameter.\<close>

definition subscribeToGardenEvents :: "EventName list \<Rightarrow> nat \<Rightarrow> BufferedEventStream \<times> World \<Rightarrow> BufferedEventStream \<times> World" where
  "subscribeToGardenEvents eventNames busId sw =
     (let (m, bus', k') = subscribeLoop eventNames [] (buses (snd sw) busId) (nextId (snd sw))
      in ((fst sw)\<lparr>gardenEventListeners := Some m\<rparr>,
          (snd sw)\<lparr>buses := (buses (snd sw))(busId := bus'), nextId := k'\<rparr>))"

text \<open>
  \<^verbatim>\<open>unsubscribeFromGardenEvents\<close>: \<^verbatim>\<open>Object.entries\<close> of an undefined
  \<^verbatim>\<open>gardenEventListeners\<close> throws.
\<close>

definition unsubscribeFromGardenEvents :: "nat \<Rightarrow> BufferedEventStream \<times> World \<Rightarrow> JsError + BufferedEventStream \<times> World" where
  "unsubscribeFromGardenEvents busId sw =
     (case gardenEventListeners (fst sw) of
        None \<Rightarrow> Inl TypeError
      | Some m \<Rightarrow>
          Inr (fst sw,
               (snd sw)\<lparr>buses := (buses (snd sw))
                  (busId := fold (\<lambda>e. EventBus_removeListener (fst e) (snd e)) m (buses (snd sw) busId))\<rparr>))"

definition startInterval :: "BufferedEventStream \<times> World \<Rightarrow> BufferedEventStream \<times> World" where
  "startInterval sw =
     ((fst sw)\<lparr>intervalId := Some (nextId (snd sw))\<rparr>,
      (snd sw)\<lparr>activeTimers := insert (nextId (snd sw)) (activeTimers (snd sw)),
                nextId := Suc (nextId (snd sw))\<rparr>)"

text \<open>
  \<^verbatim>\<open>connect({ garden, targets })\<close>. \<open>ts = None\<close> is a call without \<^verbatim>\<open>targets\<close>; an
  empty array is truthy and replaces the list.
\<close>

definition connect :: "EventName list \<Rightarrow> Garden \<Rightarrow> StreamTarget list option \<Rightarrow> BufferedEventStream \<times> World \<Rightarrow>
    JsError + BufferedEventStream \<times> World" where
  "connect eventNames g ts sw =
     (let w1 = (case intervalId (fst sw) of Some t \<Rightarrow> clearInterval t (snd sw) | None \<Rightarrow> snd sw);
          s1 = (case ts of Some ts' \<Rightarrow> (fst sw)\<lparr>targets := ts'\<rparr> | None \<Rightarrow> fst sw)
      in case (case garden s1 of
                 Some old \<Rightarrow> unsubscribeFromGardenEvents (gardenId old) (s1, w1)
               | None \<Rightarrow> Inr (s1, w1)) of
           Inl e \<Rightarrow> Inl e
         | Inr sw2 \<Rightarrow>
             Inr (startInterval
                    (subscribeToGardenEvents eventNames (gardenId g)
                       ((fst sw2)\<lparr>garden := Some g\<rparr>, snd sw2))))"

text \<open>A sequence of \<^verbatim>\<open>connect\<close> calls; it stops at the first call that throws.\<close>

fun connects :: "EventName list \<Rightarrow> (Garden \<times> StreamTarget list option) list \<Rightarrow> BufferedEventStream \<times> World \<Rightarrow>
    JsError + BufferedEventStream \<times> World" where
  "connects eventNames [] sw = Inr sw"
| "connects eventNames (c # cs) sw =
     (case connect eventNames (fst c) (snd c) sw of
        Inl e \<Rightarrow> Inl e
      | Inr sw' \<Rightarrow> connects eventNames cs sw')"

text \<open>The calls made on a stream between two points of interest.\<close>

datatype StreamOp =
    OpStreamEvent nat EventName Events
  | OpStreamLogEntry LogEntryEvent
  | OpFlush bool

fun applyOp :: "GardenEnv \<Rightarrow> StreamOp \<Rightarrow> BufferedEventStream \<Rightarrow> BufferedEventStream" where
  "applyOp env (OpStreamEvent now n p) s = streamEvent now n p s"
| "applyOp env (OpStreamLogEntry e) s = streamLogEntry e s"
| "applyOp env (OpFlush flushAll) s = fst (flushBuffered env flushAll s)"

fun isControlOp :: "StreamOp \<Rightarrow> bool" where
  "isControlOp (OpStreamEvent now n p) = (n \<in> controlEventNames)"
| "isControlOp _ = False"

definition runOps :: "GardenEnv \<Rightarrow> StreamOp list \<Rightarrow> BufferedEventStream \<Rightarrow> BufferedEventStream" where
  "runOps env ops s = fold (applyOp env) ops s"

text \<open>How many items a flush takes off the front of each buffer, and the requests it makes.\<close>

definition eventFlushCount :: "bool \<Rightarrow> BufferedEventStream \<Rightarrow> nat" where
  "eventFlushCount flushAll s =
     (if flushAll then length (bufferedEvents s) else nat (maxBatchSize s))"

definition logFlushCount :: "bool \<Rightarrow> BufferedEventStream \<Rightarrow> nat" where
  "logFlushCount flushAll s =
     (if flushAll then length (bufferedLogEntries s)
      else nat (maxBatchSize s - int (length (bufferedLogEntries s))))"

definition eventPosts :: "GardenEnv \<Rightarrow> BufferedEventStream \<Rightarrow> Garden \<Rightarrow> StreamEvent list \<Rightarrow> HttpPost list" where
  "eventPosts env s g evs =
     (if evs = [] then []
      else map (\<lambda>t. \<lparr>post_url = host t @ ''/events'', post_authToken = clientAuthToken t,
              post_json = EventBatch \<lparr>eb_events = evs, eb_workflowRunUid = getWorkflowRunUid env s,
                eb_sessionId = sessionId s, eb_projectUid = orUndefined (projectId g),
                eb_environment = environmentName g, eb_namespace = namespace g\<rparr>\<rparr>) (targets s))"

definition logPosts :: "GardenEnv \<Rightarrow> BufferedEventStream \<Rightarrow> Garden \<Rightarrow> LogEntryEvent list \<Rightarrow> HttpPost list" where
  "logPosts env s g les =
     (if les = [] then []
      else map (\<lambda>t. \<lparr>post_url = host t @ ''/log-entries'', post_authToken = clientAuthToken t,
              post_json = LogBatch \<lparr>lb_logEntries = les, lb_workflowRunUid = getWorkflowRunUid env s,
                lb_sessionId = sessionId s, lb_projectUid = orUndefined (projectId g)\<rparr>\<rparr>) (targets s))"

subsection \<open>Concrete inputs\<close>

definition demoGarden :: "nat \<Rightarrow> Garden" where
  "demoGarden i = \<lparr>gardenId = i, projectId = Some ''project-1'', environmentName = ''dev'',
     namespace = ''default''\<rparr>"

definition demoTarget :: StreamTarget where
  "demoTarget = \<lparr>host = ''https://enterprise.example'', clientAuthToken = ''token-1''\<rparr>"

definition demoWorld :: World where
  "demoWorld = \<lparr>buses = (\<lambda>_. EventBus_new), activeTimers = {}, loggedErrors = 0, nextId = 0\<rparr>"

definition demoEventNames :: "EventName list" where
  "demoEventNames = [''_workflowRunRegistered'', ''taskComplete'']"

definition noEnv :: GardenEnv where
  "noEnv = \<lparr>GARDEN_WORKFLOW_RUN_UID = None\<rparr>"

definition demoLogEntry :: "nat \<Rightarrow> LogEntryEvent" where
  "demoLogEntry i = \<lparr>le_key = ''line'', le_parentKey = None, le_revision = int i, le_msg = Msg ''building'',
     le_timestamp = i, le_level = 2, le_data = None, le_section = None, le_metadata = None\<rparr>"

text \<open>A stream after \<^verbatim>\<open>new BufferedEventStream(log, "session-1")\<close> and one \<^verbatim>\<open>connect\<close> with one target.\<close>

definition demoConnected :: "BufferedEventStream \<times> World" where
  "demoConnected =
     (case connect demoEventNames (demoGarden 1) (Some [demoTarget])
             (BufferedEventStream_new ''session-1'', demoWorld) of
        Inr sw \<Rightarrow> sw
      | Inl _ \<Rightarrow> (BufferedEventStream_new ''session-1'', demoWorld))"

definition setEnv :: GardenEnv where
  "setEnv = \<lparr>GARDEN_WORKFLOW_RUN_UID = Some ''wf-env''\<rparr>"

definition demoOps :: "StreamOp list" where
  "demoOps = [OpStreamEvent 5 ''_workflowRunRegistered'' (WorkflowRunRegistered ''run-1''),
              OpStreamEvent 6 ''taskComplete'' (EventPayload JNull)]"

definition laterOps :: "StreamOp list" where
  "laterOps = [OpStreamEvent 6 ''taskComplete'' (EventPayload JNull), OpStreamLogEntry (demoLogEntry 0)]"

definition failingNet :: "HttpPost \<Rightarrow> bool" where
  "failingNet p = False"

definition oneEvent :: "BufferedEventStream \<times> World" where
  "oneEvent = (streamEvent 7 ''taskComplete'' (EventPayload JNull) (fst demoConnected), snd demoConnected)"

definition unconnected :: "BufferedEventStream \<times> World" where
  "unconnected =
     (streamEvent 7 ''taskComplete'' (EventPayload JNull) (BufferedEventStream_new ''session-1''), demoWorld)"


definition twoItems :: "BufferedEventStream \<times> World" where
  "twoItems = (runOps noEnv laterOps (fst demoConnected), snd demoConnected)"

definition sixtyLogEntries :: BufferedEventStream where
  "sixtyLogEntries = fold streamLogEntry (map demoLogEntry [0..<60]) (fst demoConnected)"

subsection \<open>What is registered on a bus\<close>

fun isStreamListener :: "Listener \<Rightarrow> bool" where
  "isStreamListener (StreamListener k n) = True"
| "isStreamListener _ = False"

text \<open>The registrations of the stream's closures on a bus, and those of everybody else.\<close>

definition streamRegs :: "EventBus \<Rightarrow> (EventName \<times> Listener) list" where
  "streamRegs bus = filter (\<lambda>r. isStreamListener (snd r)) (listeners bus)"

definition otherRegs :: "EventBus \<Rightarrow> (EventName \<times> Listener) list" where
  "otherRegs bus = filter (\<lambda>r. \<not> isStreamListener (snd r)) (listeners bus)"

text \<open>How many closures of the stream are registered for event \<open>n\<close> on a bus.\<close>

definition streamListenerCount :: "EventName \<Rightarrow> EventBus \<Rightarrow> nat" where
  "streamListenerCount n bus =
     length (filter (\<lambda>r. fst r = n \<and> isStreamListener (snd r)) (listeners bus))"

text \<open>The registrations one run of the subscription loop makes, starting at closure number \<open>k\<close>.\<close>

fun freshRegs :: "nat \<Rightarrow> EventName list \<Rightarrow> (EventName \<times> Listener) list" where
  "freshRegs k [] = []"
| "freshRegs k (n # ns) = (n, StreamListener k n) # freshRegs (Suc k) ns"

text \<open>
  A world the stream has not touched yet: no closure of the stream is registered anywhere,
  and the counter is beyond every running timer.
\<close>

definition worldFresh :: "World \<Rightarrow> bool" where
  "worldFresh w = ((\<forall>b. streamRegs (buses w b) = []) \<and> (\<forall>t \<in> activeTimers w. t < nextId w))"

text \<open>
  What holds of a stream and its world between calls, relative to the world \<open>w0\<close> the
  stream started in: the only timer added to \<open>w0\<close>'s is the one in \<open>intervalId\<close>; the
  stream's closures are registered on the attached garden's bus only, there exactly as
  \<open>gardenEventListeners\<close> lists them, one per event name; all other registrations are
  those of \<open>w0\<close>.
\<close>

definition streamInv :: "EventName list \<Rightarrow> World \<Rightarrow> BufferedEventStream \<times> World \<Rightarrow> bool" where
  "streamInv eventNames w0 sw =
     ((\<forall>t \<in> activeTimers (snd sw). t < nextId (snd sw))
      \<and> activeTimers (snd sw) = activeTimers w0 \<union> set_option (intervalId (fst sw))
      \<and> (\<forall>t. intervalId (fst sw) = Some t \<longrightarrow> t \<notin> activeTimers w0)
      \<and> (\<forall>b. otherRegs (buses (snd sw) b) = otherRegs (buses w0 b)
              \<and> anyListeners (buses (snd sw) b) = anyListeners (buses w0 b))
      \<and> (case garden (fst sw) of
            None \<Rightarrow> (\<forall>b. streamRegs (buses (snd sw) b) = [])
          | Some g \<Rightarrow>
              gardenEventListeners (fst sw) = Some (streamRegs (buses (snd sw) (gardenId g)))
              \<and> map fst (streamRegs (buses (snd sw) (gardenId g))) = eventNames
              \<and> (\<forall>b. b \<noteq> gardenId g \<longrightarrow> streamRegs (buses (snd sw) b) = [])))"

text \<open>
  The world in the middle of \<^verbatim>\<open>connect\<close>, after the old timer is cleared and the old
  bus is unsubscribed from: none of the stream's closures is registered, and the timers
  are those of \<open>w0\<close>.
\<close>

definition detached :: "World \<Rightarrow> World \<Rightarrow> bool" where
  "detached w0 w =
     ((\<forall>b. streamRegs (buses w b) = [] \<and> otherRegs (buses w b) = otherRegs (buses w0 b)
            \<and> anyListeners (buses w b) = anyListeners (buses w0 b))
      \<and> activeTimers w = activeTimers w0
      \<and> (\<forall>t \<in> activeTimers w0. t < nextId w))"


definition twoConnects :: "(Garden \<times> StreamTarget list option) list" where
  "twoConnects = [(demoGarden 1, Some [demoTarget]), (demoGarden 2, None)]"

section \<open>GardenServer\<close>

text \<open>
  Reading a property of a parsed JSON document. The handlers read \<^verbatim>\<open>events\<close>,
  \<^verbatim>\<open>name\<close>, \<^verbatim>\<open>payload\<close>, \<^verbatim>\<open>id\<close> and \<^verbatim>\<open>type\<close>; none of them is a property of a
  string, number, boolean or array, so only an object can hold one (\<open>None\<close> is
  undefined). \<^verbatim>\<open>JSON.parse\<close> keeps the last of two equal keys. Reading a property of
  \<^verbatim>\<open>null\<close> throws; the callers check for \<open>JNull\<close> first.
\<close>

fun getProp :: "json \<Rightarrow> string \<Rightarrow> json option" where
  "getProp (JObj kvs) k = map_of (rev kvs) k"
| "getProp _ k = None"

text \<open>\<^verbatim>\<open>omit(request, ["id", "type"])\<close>.\<close>

fun omitIdType :: "json \<Rightarrow> json" where
  "omitIdType (JObj kvs) = JObj (filter (\<lambda>kv. fst kv \<noteq> ''id'' \<and> fst kv \<noteq> ''type'') kvs)"
| "omitIdType j = j"

record CommandResult =
  cr_result :: json
  cr_errors :: "json option"

text \<open>\<^verbatim>\<open>ServerWebsocketMessages\<close>: what the server sends on a socket.\<close>

datatype ServerWebsocketMessage =
    CommandResultMsg string json "json option"
  | ErrorMsg "string option" string
  | EventMsg "json option" "json option"

text \<open>
  A websocket connection: whether it is open, whether the server registered its
  \<^verbatim>\<open>close\<close> and \<^verbatim>\<open>message\<close> handlers on it, and the messages sent on it so far.
\<close>

record Socket =
  sock_open :: bool
  sock_hasHandlers :: bool
  sock_sent :: "ServerWebsocketMessage list"

datatype ResponseBody = TextBody string | ResultBody CommandResult

text \<open>What a handler leaves in \<^verbatim>\<open>ctx.status\<close> and \<^verbatim>\<open>ctx.response.body\<close>.\<close>

record HttpResponse =
  resp_status :: nat
  resp_body :: "ResponseBody option"

text \<open>A use of the attached garden by the server.\<close>

datatype GardenCall = AnalyticsInit nat | ResolveRequest nat json

text \<open>
  The server object. \<open>srv_analytics\<close> says whether \<^verbatim>\<open>this.analytics\<close> is set.
  \<open>srv_gardenCalls\<close> and \<open>srv_incomingEmitted\<close> are traces: the calls that were handed the
  attached garden, and the \<^verbatim>\<open>emit\<close> calls made on \<^verbatim>\<open>this.incomingEvents\<close>.
\<close>

record GardenServer =
  srv_garden :: "Garden option"
  srv_authKey :: string
  srv_incomingEvents :: EventBus
  srv_analytics :: bool
  srv_sockets :: "nat \<Rightarrow> Socket"
  srv_gardenCalls :: "GardenCall list"
  srv_incomingEmitted :: "(json option \<times> json option) list"

definition notReadyMessage :: string where
  "notReadyMessage = ''Waiting for Garden instance to initialize''"

text \<open>The constructor; \<open>key\<close> is what \<^verbatim>\<open>randomString(64)\<close> returned.\<close>

definition GardenServer_new :: "string \<Rightarrow> GardenServer" where
  "GardenServer_new key =
     \<lparr>srv_garden = None, srv_authKey = key, srv_incomingEvents = EventBus_new, srv_analytics = False,
      srv_sockets = (\<lambda>_. \<lparr>sock_open = False, sock_hasHandlers = False, sock_sent = []\<rparr>),
      srv_gardenCalls = [], srv_incomingEmitted = []\<rparr>"

text \<open>Koa's response before a handler ran.\<close>

definition ctx0 :: HttpResponse where
  "ctx0 = \<lparr>resp_status = 404, resp_body = None\<rparr>"

definition notReady :: "HttpResponse \<Rightarrow> HttpResponse" where
  "notReady ctx = ctx\<lparr>resp_status := 503, resp_body := Some (TextBody notReadyMessage)\<rparr>"

text \<open>
  \<^verbatim>\<open>setGarden\<close>. Mounting the artifacts directory as static assets is outside the
  data kept here.
\<close>

definition setGarden :: "Garden \<Rightarrow> GardenServer \<times> World \<Rightarrow> GardenServer \<times> World" where
  "setGarden g sw =
     (let w1 = (case srv_garden (fst sw) of
                  Some old \<Rightarrow>
                    (snd sw)\<lparr>buses := (buses (snd sw))
                      (gardenId old := EventBus_removeListener ''serversUpdated'' ServersUpdatedListener
                         (buses (snd sw) (gardenId old)))\<rparr>
                | None \<Rightarrow> snd sw)
      in ((fst sw)\<lparr>srv_garden := Some g\<rparr>,
          w1\<lparr>buses := (buses w1)
            (gardenId g := EventBus_on ''serversUpdated'' ServersUpdatedListener (buses w1 (gardenId g)))\<rparr>))"

text \<open>
  \<^verbatim>\<open>send(type, payload)\<close> on the socket of connection \<open>c\<close>. On a closed socket
  \<^verbatim>\<open>websocket.send\<close> reports an error, which is logged; nothing is delivered.
\<close>

definition send :: "nat \<Rightarrow> ServerWebsocketMessage \<Rightarrow> GardenServer \<Rightarrow> GardenServer" where
  "send c m srv =
     (if sock_open (srv_sockets srv c)
      then srv\<lparr>srv_sockets := (srv_sockets srv)
             (c := (srv_sockets srv c)\<lparr>sock_sent := sock_sent (srv_sockets srv c) @ [m]\<rparr>)\<rparr>
      else srv)"

text \<open>
  A listener called with an event. The \<^verbatim>\<open>eventListener\<close> of a connection sends an
  \<^verbatim>\<open>event\<close> message on its socket; \<^verbatim>\<open>serversUpdatedListener\<close> rewrites the status
  line, and the other listeners belong to other objects: none of them changes the server.
\<close>

fun invoke :: "json option \<Rightarrow> json option \<Rightarrow> Listener \<Rightarrow> GardenServer \<Rightarrow> GardenServer" where
  "invoke n p (SocketEventListener c) srv = send c (EventMsg n p) srv"
| "invoke n p _ srv = srv"

text \<open>
  \<^verbatim>\<open>this.incomingEvents.emit(name, payload)\<close> with whatever the request body held as
  name. A name that is not a string has no listeners of its own.
\<close>

definition emitIncoming :: "json option \<Rightarrow> json option \<Rightarrow> GardenServer \<Rightarrow> GardenServer" where
  "emitIncoming n p srv =
     fold (invoke n p)
       (case n of
          Some (JStr en) \<Rightarrow> EventBus_emit en (srv_incomingEvents srv)
        | _ \<Rightarrow> anyListeners (srv_incomingEvents srv))
       (srv\<lparr>srv_incomingEmitted := srv_incomingEmitted srv @ [(n, p)]\<rparr>)"

text \<open>An event published on the bus of garden \<open>g\<close>, as far as the server is concerned.\<close>

definition gardenEmit :: "Garden \<Rightarrow> EventName \<Rightarrow> json \<Rightarrow> GardenServer \<times> World \<Rightarrow> GardenServer \<times> World" where
  "gardenEmit g n p sw =
     (fold (invoke (Some (JStr n)) (Some p)) (EventBus_emit n (buses (snd sw) (gardenId g))) (fst sw), snd sw)"

text \<open>
  The handler of \<^verbatim>\<open>POST /api\<close>. \<open>analyticsInit\<close> says whether
  \<^verbatim>\<open>AnalyticsHandler.init\<close> succeeds, \<open>resolveRequest\<close> is the orchestrator's answer
  (\<open>Inl\<close> a rejection); both are outside the sources.
\<close>

definition postApi :: "(Garden \<Rightarrow> bool) \<Rightarrow> (Garden \<Rightarrow> json \<Rightarrow> string + CommandResult) \<Rightarrow> json \<Rightarrow> GardenServer \<Rightarrow>
    (JsError + HttpResponse) \<times> GardenServer" where
  "postApi analyticsInit resolveRequest body srv =
     (case srv_garden srv of
        None \<Rightarrow> (Inr (notReady ctx0), srv)
      | Some g \<Rightarrow>
          let srv1 = (if srv_analytics srv then srv
                      else srv\<lparr>srv_gardenCalls := srv_gardenCalls srv @ [AnalyticsInit (gardenId g)]\<rparr>)
          in if \<not> srv_analytics srv \<and> \<not> analyticsInit g
             then (Inl (Rejected ''AnalyticsHandler.init''), srv1)
             else
               let srv2 = srv1\<lparr>srv_analytics := True,
                             srv_gardenCalls := srv_gardenCalls srv1 @ [ResolveRequest (gardenId g) body]\<rparr>
               in case resolveRequest g body of
                    Inl m \<Rightarrow> (Inl (Rejected m), srv2)
                  | Inr r \<Rightarrow> (Inr (ctx0\<lparr>resp_status := 200, resp_body := Some (ResultBody r)\<rparr>), srv2))"

text \<open>
  \<^verbatim>\<open>batch.events.forEach((e) => this.incomingEvents.emit(e.name, e.payload))\<close>: an
  item that is \<^verbatim>\<open>null\<close> throws, after the items before it were published.
\<close>

fun emitEach :: "json list \<Rightarrow> GardenServer \<Rightarrow> JsError option \<times> GardenServer" where
  "emitEach [] srv = (None, srv)"
| "emitEach (JNull # es) srv = (Some TypeError, srv)"
| "emitEach (e # es) srv = emitEach es (emitIncoming (getProp e ''name'') (getProp e ''payload'') srv)"

text \<open>
  The handler of \<^verbatim>\<open>POST /events\<close>. \<open>authHeader\<close> is \<^verbatim>\<open>ctx.header[authTokenHeader]\<close>
  (\<open>None\<close> when the header is missing), \<open>body\<close> the parsed request body, which is not
  validated: \<^verbatim>\<open>batch.events.length\<close> throws when \<^verbatim>\<open>events\<close> is missing or null, and
  \<^verbatim>\<open>batch.events.forEach\<close> when it is anything but an array.
\<close>

definition postEvents :: "string option \<Rightarrow> json \<Rightarrow> GardenServer \<Rightarrow> (JsError + HttpResponse) \<times> GardenServer" where
  "postEvents authHeader body srv =
     (if authHeader \<noteq> Some (srv_authKey srv)
      then (Inr (ctx0\<lparr>resp_status := 401\<rparr>), srv)
      else case body of
        JNull \<Rightarrow> (Inl TypeError, srv)
      | _ \<Rightarrow>
        (case getProp body ''events'' of
           Some (JArr items) \<Rightarrow>
             (case emitEach items srv of
                (Some e, srv') \<Rightarrow> (Inl e, srv')
              | (None, srv') \<Rightarrow> (Inr (ctx0\<lparr>resp_status := 200\<rparr>), srv'))
         | _ \<Rightarrow> (Inl TypeError, srv)))"

text \<open>
  The \<^verbatim>\<open>/ws\<close> route, run when connection \<open>c\<close> opens. With no garden it calls
  \<^verbatim>\<open>this.notReady(ctx)\<close> and returns before anything is registered. The \<open>ctx\<close> of a
  websocket connection has no HTTP response behind it, so the assignment
  \<^verbatim>\<open>ctx.status = 503\<close> in \<^verbatim>\<open>notReady\<close> throws: neither status nor body is set, and the
  socket stays open without listener and without handler.
\<close>

definition wsConnect :: "nat \<Rightarrow> GardenServer \<times> World \<Rightarrow> (JsError + HttpResponse) \<times> GardenServer \<times> World" where
  "wsConnect c sw =
     (let srv = (fst sw)\<lparr>srv_sockets := (srv_sockets (fst sw))
                   (c := \<lparr>sock_open = True, sock_hasHandlers = False, sock_sent = []\<rparr>)\<rparr>
      in case srv_garden srv of
           None \<Rightarrow> (Inl TypeError, srv, snd sw)
         | Some g \<Rightarrow>
             (Inr ctx0,
              srv\<lparr>srv_incomingEvents := EventBus_onAny (SocketEventListener c) (srv_incomingEvents srv),
                  srv_sockets := (srv_sockets srv)
                    (c := \<lparr>sock_open = True, sock_hasHandlers = True, sock_sent = []\<rparr>)\<rparr>,
              (snd sw)\<lparr>buses := (buses (snd sw))
                (gardenId g := EventBus_onAny (SocketEventListener c) (buses (snd sw) (gardenId g)))\<rparr>))"

text \<open>
  Connection \<open>c\<close> closes. The \<^verbatim>\<open>close\<close> handler, if it was registered, takes the
  listener off the bus of the garden attached now and off \<^verbatim>\<open>incomingEvents\<close>.
\<close>

definition wsClose :: "nat \<Rightarrow> GardenServer \<times> World \<Rightarrow> GardenServer \<times> World" where
  "wsClose c sw =
     (let srv = (fst sw)\<lparr>srv_sockets := (srv_sockets (fst sw))
                   (c := (srv_sockets (fst sw) c)\<lparr>sock_open := False\<rparr>)\<rparr>
      in if \<not> sock_hasHandlers (srv_sockets (fst sw) c) then (srv, snd sw)
         else
           (srv\<lparr>srv_incomingEvents := EventBus_offAny (SocketEventListener c) (srv_incomingEvents srv)\<rparr>,
            case srv_garden srv of
              Some g \<Rightarrow>
                (snd sw)\<lparr>buses := (buses (snd sw))
                  (gardenId g := EventBus_offAny (SocketEventListener c) (buses (snd sw) (gardenId g)))\<rparr>
            | None \<Rightarrow> snd sw))"

text \<open>\<^verbatim>\<open>JSON.parse(msg.toString())\<close>: it throws, or gives a document.\<close>

datatype WsInput = Unparsable | Parsed json

text \<open>
  The \<^verbatim>\<open>message\<close> handler of connection \<open>c\<close>. \<open>isUuid\<close> is
  \<^verbatim>\<open>joi.string().uuid()\<close>; \<^verbatim>\<open>joi.string().required()\<close> refuses what is missing,
  not a string, or empty.
\<close>

definition onMessage :: "(string \<Rightarrow> bool) \<Rightarrow> (Garden \<Rightarrow> json \<Rightarrow> string + CommandResult) \<Rightarrow> nat \<Rightarrow> WsInput \<Rightarrow>
    GardenServer \<Rightarrow> JsError option \<times> GardenServer" where
  "onMessage isUuid resolveRequest c msg srv =
     (case msg of
        Unparsable \<Rightarrow> (None, send c (ErrorMsg None ''Could not parse message as JSON'') srv)
      | Parsed JNull \<Rightarrow> (Some TypeError, srv)
      | Parsed request \<Rightarrow>
          (case getProp request ''id'' of
             Some (JStr requestId) \<Rightarrow>
               if \<not> (requestId \<noteq> [] \<and> isUuid requestId)
               then (None, send c (ErrorMsg None ''Message should contain an `id` field with a UUID value'') srv)
               else
                 (case getProp request ''type'' of
                    Some (JStr ty) \<Rightarrow>
                      if ty = [] then (None, send c (ErrorMsg None ''Message should contain a type field'') srv)
                      else if ty = ''command'' then
                        (case srv_garden srv of
                           None \<Rightarrow> (None, send c (ErrorMsg (Some requestId) notReadyMessage) srv)
                         | Some g \<Rightarrow>
                             let srv1 = srv\<lparr>srv_gardenCalls := srv_gardenCalls srv @
                                            [ResolveRequest (gardenId g) (omitIdType request)]\<rparr>
                             in case resolveRequest g (omitIdType request) of
                                  Inr r \<Rightarrow> (None, send c (CommandResultMsg requestId (cr_result r) (cr_errors r)) srv1)
                                | Inl m \<Rightarrow> (None, send c (ErrorMsg (Some requestId) m) srv1))
                      else (None, send c (ErrorMsg (Some requestId) (''Unsupported request type: '' @ ty)) srv)
                  | _ \<Rightarrow> (None, send c (ErrorMsg None ''Message should contain a type field'') srv))
           | _ \<Rightarrow> (None, send c (ErrorMsg None ''Message should contain an `id` field with a UUID value'') srv)))"

text \<open>
  A message arrives on connection \<open>c\<close>. Only a socket on which the \<^verbatim>\<open>/ws\<close> route
  registered the handler has one to run.
\<close>

definition wsMessage :: "(string \<Rightarrow> bool) \<Rightarrow> (Garden \<Rightarrow> json \<Rightarrow> string + CommandResult) \<Rightarrow> nat \<Rightarrow> WsInput \<Rightarrow>
    GardenServer \<Rightarrow> JsError option \<times> GardenServer" where
  "wsMessage isUuid resolveRequest c msg srv =
     (if sock_hasHandlers (srv_sockets srv c) then onMessage isUuid resolveRequest c msg srv
      else (None, srv))"

subsection \<open>Concrete servers and requests\<close>

definition demoServer :: GardenServer where
  "demoServer = GardenServer_new ''secret-key''"

definition demoEventItem :: json where
  "demoEventItem = JObj [(''name'', JStr ''taskComplete''), (''payload'', JObj [(''ok'', JBool True)])]"

definition demoReady :: "GardenServer \<times> World" where
  "demoReady = setGarden (demoGarden 1) (demoServer, demoWorld)"

definition withSocket :: "GardenServer \<times> World" where
  "withSocket = snd (wsConnect 7 demoReady)"

definition demoBatch :: json where
  "demoBatch = JObj [(''events'', JArr [demoEventItem, JObj [(''name'', JStr ''taskGraphComplete'')]]),
                     (''sessionId'', JStr ''session-1'')]"

definition brokenBatch :: json where
  "brokenBatch = JObj [(''events'', JArr [demoEventItem, JNull])]"

definition noEventsBody :: json where
  "noEventsBody = JObj [(''sessionId'', JStr ''session-1'')]"

subsection \<open>Runs of the server\<close>

text \<open>What can happen to a server: calls of its methods, requests, socket traffic and events.\<close>

datatype ServerOp =
    OpSetGarden Garden
  | OpPostApi json
  | OpPostEvents "string option" json
  | OpWsConnect nat
  | OpWsClose nat
  | OpWsMessage nat WsInput
  | OpGardenEmit Garden EventName json

fun serverStep :: "(Garden \<Rightarrow> bool) \<Rightarrow> (Garden \<Rightarrow> json \<Rightarrow> string + CommandResult) \<Rightarrow> (string \<Rightarrow> bool) \<Rightarrow>
    ServerOp \<Rightarrow> GardenServer \<times> World \<Rightarrow> GardenServer \<times> World" where
  "serverStep ai rr iu (OpSetGarden g) sw = setGarden g sw"
| "serverStep ai rr iu (OpPostApi body) sw = (snd (postApi ai rr body (fst sw)), snd sw)"
| "serverStep ai rr iu (OpPostEvents h body) sw = (snd (postEvents h body (fst sw)), snd sw)"
| "serverStep ai rr iu (OpWsConnect c) sw = snd (wsConnect c sw)"
| "serverStep ai rr iu (OpWsClose c) sw = wsClose c sw"
| "serverStep ai rr iu (OpWsMessage c msg) sw = (snd (wsMessage iu rr c msg (fst sw)), snd sw)"
| "serverStep ai rr iu (OpGardenEmit g n p) sw = gardenEmit g n p sw"

definition runServer :: "(Garden \<Rightarrow> bool) \<Rightarrow> (Garden \<Rightarrow> json \<Rightarrow> string + CommandResult) \<Rightarrow> (string \<Rightarrow> bool) \<Rightarrow>
    ServerOp list \<Rightarrow> GardenServer \<times> World \<Rightarrow> GardenServer \<times> World" where
  "runServer ai rr iu ops sw = fold (serverStep ai rr iu) ops sw"

definition demoUuid :: string where
  "demoUuid = ''123e4567-e89b-12d3-a456-426614174000''"

definition demoIsUuid :: "string \<Rightarrow> bool" where
  "demoIsUuid s = (s = demoUuid)"

definition demoResolve :: "Garden \<Rightarrow> json \<Rightarrow> string + CommandResult" where
  "demoResolve g body = Inr \<lparr>cr_result = JObj [(''status'', JStr ''ok'')], cr_errors = None\<rparr>"

definition demoCommand :: json where
  "demoCommand = JObj [(''id'', JStr demoUuid), (''type'', JStr ''command''), (''command'', JStr ''get.status'')]"

text \<open>A new server on whose socket endpoint connection 7 opened before any garden was attached.\<close>

definition earlySocket :: "GardenServer \<times> World" where
  "earlySocket = snd (wsConnect 7 (demoServer, demoWorld))"

text \<open>Garden 1 attached, connection 7 opened, then garden 2 attached.\<close>

definition switched :: "GardenServer \<times> World" where
  "switched = setGarden (demoGarden 2) withSocket"

text \<open>
  While no garden is attached, no socket has the server's handlers: the \<^verbatim>\<open>/ws\<close> route
  registers them only on a connection that opens with a garden attached.
\<close>

definition noHandlersWhileNotReady :: "GardenServer \<Rightarrow> bool" where
  "noHandlersWhileNotReady srv =
     (srv_garden srv = None \<longrightarrow> (\<forall>c. \<not> sock_hasHandlers (srv_sockets srv c)))"

section \<open>Properties of the stream\<close>

lemma splice0_fst: "fst (splice0 xs n) = take (nat n) xs"
  by (cases "n \<le> int (length xs)") (simp_all add: splice0_def Let_def min_def max_def)

lemma splice0_snd: "snd (splice0 xs n) = drop (nat n) xs"
  by (cases "n \<le> int (length xs)") (simp_all add: splice0_def Let_def min_def max_def)

lemma splice0_eq: "splice0 xs n = (take (nat n) xs, drop (nat n) xs)"
  by (simp add: prod_eq_iff splice0_fst splice0_snd)

lemma getWorkflowRunUid_buffers [simp]:
  "getWorkflowRunUid env (s\<lparr>bufferedEvents := a\<rparr>) = getWorkflowRunUid env s"
  "getWorkflowRunUid env (s\<lparr>bufferedLogEntries := b\<rparr>) = getWorkflowRunUid env s"
  by (simp_all add: getWorkflowRunUid_def split: option.splits)

lemma flushBuffered_idle:
  "garden s = None \<or> targets s = [] \<Longrightarrow> flushBuffered env flushAll s = (s, [], None)"
  by (simp add: flushBuffered_def)

lemma flushBuffered_active:
  assumes "garden s = Some g" and "targets s \<noteq> []"
  shows "flushBuffered env flushAll s =
    (s\<lparr>bufferedEvents := drop (eventFlushCount flushAll s) (bufferedEvents s),
       bufferedLogEntries := drop (logFlushCount flushAll s) (bufferedLogEntries s)\<rparr>,
     eventPosts env s g (take (eventFlushCount flushAll s) (bufferedEvents s)) @
     logPosts env s g (take (logFlushCount flushAll s) (bufferedLogEntries s)),
     None)"
  using assms
  by (simp add: flushBuffered_def Let_def splice0_eq flushEvents_def flushLogEntries_def
      attemptsOf_def thrownBy_def postToTargets_def eventPosts_def
      logPosts_def eventFlushCount_def logFlushCount_def)

lemma fst_demoConnected:
  "fst demoConnected = (BufferedEventStream_new ''session-1'')
     \<lparr>targets := [demoTarget], garden := Some (demoGarden 1),
      gardenEventListeners := Some [(''_workflowRunRegistered'', StreamListener 0 ''_workflowRunRegistered''),
                                    (''taskComplete'', StreamListener 1 ''taskComplete'')],
      intervalId := Some 2\<rparr>"
  by (simp add: demoConnected_def connect_def BufferedEventStream_new_def demoWorld_def
      subscribeToGardenEvents_def startInterval_def demoEventNames_def Let_def)

lemma fold_streamLogEntry:
  "fold streamLogEntry es s = s\<lparr>bufferedLogEntries := bufferedLogEntries s @ es\<rparr>"
  by (induction es arbitrary: s) (simp_all add: streamLogEntry_def)

lemma flushBuffered_posts_uid:
  "p \<in> set (fst (snd (flushBuffered env flushAll s))) \<Longrightarrow>
   post_workflowRunUid (post_json p) = getWorkflowRunUid env s"
proof (cases "garden s = None \<or> targets s = []")
  case True
  assume "p \<in> set (fst (snd (flushBuffered env flushAll s)))"
  with True show ?thesis by (simp add: flushBuffered_idle)
next
  case False
  then obtain g where g: "garden s = Some g" and t: "targets s \<noteq> []" by auto
  assume "p \<in> set (fst (snd (flushBuffered env flushAll s)))"
  then show ?thesis
    by (auto simp: flushBuffered_active [OF g t] eventPosts_def logPosts_def split: if_splits)
qed

lemma flushBuffered_workflowRunUid:
  "workflowRunUid (fst (flushBuffered env flushAll s)) = workflowRunUid s"
proof (cases "garden s = None \<or> targets s = []")
  case True
  then show ?thesis by (simp add: flushBuffered_idle)
next
  case False
  then obtain g where g: "garden s = Some g" and t: "targets s \<noteq> []" by auto
  show ?thesis by (simp add: flushBuffered_active [OF g t])
qed

lemma applyOp_workflowRunUid:
  "\<not> isControlOp op \<Longrightarrow> workflowRunUid (applyOp env op s) = workflowRunUid s"
  by (cases op) (simp_all add: streamEvent_def streamLogEntry_def flushBuffered_workflowRunUid)

lemma runOps_workflowRunUid:
  "\<forall>op \<in> set ops. \<not> isControlOp op \<Longrightarrow> workflowRunUid (runOps env ops s) = workflowRunUid s"
  unfolding runOps_def
  by (induction ops arbitrary: s) (simp_all add: applyOp_workflowRunUid)

lemma getWorkflowRunUid_env:
  "GARDEN_WORKFLOW_RUN_UID env = Some v \<Longrightarrow> v \<noteq> [] \<Longrightarrow> getWorkflowRunUid env s = Some v"
  by (simp add: getWorkflowRunUid_def)

lemma getWorkflowRunUid_no_env:
  "GARDEN_WORKFLOW_RUN_UID env = None \<or> GARDEN_WORKFLOW_RUN_UID env = Some [] \<Longrightarrow>
   getWorkflowRunUid env s = workflowRunUid s"
  by (auto simp: getWorkflowRunUid_def)

lemma streamEvent_control:
  "n \<in> controlEventNames \<Longrightarrow> streamEvent now n p s = s\<lparr>workflowRunUid := payload_workflowRunUid p\<rparr>"
  by (simp add: streamEvent_def handleControlEvent_def controlEventNames_def)

lemma demoOps_state:
  "runOps env demoOps (fst demoConnected) =
     (fst demoConnected)\<lparr>workflowRunUid := Some ''run-1'',
        bufferedEvents := [\<lparr>ev_name = ''taskComplete'', ev_payload = EventPayload JNull, ev_timestamp = 6\<rparr>]\<rparr>"
  by (simp add: runOps_def demoOps_def streamEvent_def handleControlEvent_def controlEventNames_def
      fst_demoConnected BufferedEventStream_new_def)

lemma demo_flush_posts:
  "fst (snd (flushBuffered env False (runOps env demoOps (fst demoConnected)))) \<noteq> []"
  unfolding demoOps_state
  by (simp add: fst_demoConnected BufferedEventStream_new_def
      flushBuffered_active [where g = "demoGarden 1"] eventPosts_def logPosts_def
      eventFlushCount_def logFlushCount_def)

lemma demoOps_workflowRunUid:
  "workflowRunUid (runOps env demoOps (fst demoConnected)) = Some ''run-1''"
  by (simp add: demoOps_state)

subsection \<open>The workflow run id of a batch\<close>

text \<open>
  C9. \<^verbatim>\<open>getWorkflowRunUid\<close> is \<^verbatim>\<open>gardenEnv.GARDEN_WORKFLOW_RUN_UID || this.workflowRunUid\<close>.
  When the environment variable holds a non-empty string \<open>v\<close>, every batch of every flush
  carries \<open>v\<close>, whatever calls (control events among them) came before the flush. When the
  variable is unset, every batch carries the stream's own \<open>workflowRunUid\<close>, which only a
  control event assigns.
\<close>

theorem env_workflowRunUid_precedence:
  "(\<forall>v. GARDEN_WORKFLOW_RUN_UID env = Some v \<and> v \<noteq> [] \<longrightarrow>
      (\<forall>p \<in> set (fst (snd (flushBuffered env flushAll (runOps env ops s)))).
         post_workflowRunUid (post_json p) = Some v))
   \<and> (GARDEN_WORKFLOW_RUN_UID env = None \<longrightarrow>
      (\<forall>p \<in> set (fst (snd (flushBuffered env flushAll s))).
         post_workflowRunUid (post_json p) = workflowRunUid s))"
proof -
  have set_case: "post_workflowRunUid (post_json p) = Some v"
    if "GARDEN_WORKFLOW_RUN_UID env = Some v" and "v \<noteq> []"
      and "p \<in> set (fst (snd (flushBuffered env flushAll (runOps env ops s))))" for v p
  proof -
    have "post_workflowRunUid (post_json p) = getWorkflowRunUid env (runOps env ops s)"
      using that(3) by (rule flushBuffered_posts_uid)
    also have "\<dots> = Some v"
      using that(1,2) by (rule getWorkflowRunUid_env)
    finally show ?thesis .
  qed
  have unset_case: "post_workflowRunUid (post_json p) = workflowRunUid s"
    if "GARDEN_WORKFLOW_RUN_UID env = None"
      and "p \<in> set (fst (snd (flushBuffered env flushAll s)))" for p
  proof -
    have "post_workflowRunUid (post_json p) = getWorkflowRunUid env s"
      using that(2) by (rule flushBuffered_posts_uid)
    also have "\<dots> = workflowRunUid s"
      using that(1) by (simp add: getWorkflowRunUid_no_env)
    finally show ?thesis .
  qed
  from set_case unset_case show ?thesis by blast
qed

theorem env_workflowRunUid_precedence_witness:
  "GARDEN_WORKFLOW_RUN_UID setEnv = Some ''wf-env''
   \<and> fst (snd (flushBuffered setEnv False (runOps setEnv demoOps (fst demoConnected)))) \<noteq> []
   \<and> list_all (\<lambda>p. post_workflowRunUid (post_json p) = Some ''wf-env'')
        (fst (snd (flushBuffered setEnv False (runOps setEnv demoOps (fst demoConnected)))))
   \<and> GARDEN_WORKFLOW_RUN_UID noEnv = None
   \<and> fst (snd (flushBuffered noEnv False (runOps noEnv demoOps (fst demoConnected)))) \<noteq> []
   \<and> list_all (\<lambda>p. post_workflowRunUid (post_json p) = Some ''run-1'')
        (fst (snd (flushBuffered noEnv False (runOps noEnv demoOps (fst demoConnected)))))"
  using env_workflowRunUid_precedence [of setEnv False demoOps "fst demoConnected"]
    env_workflowRunUid_precedence [of noEnv False demoOps "runOps noEnv demoOps (fst demoConnected)"]
  by (simp add: demo_flush_posts list_all_iff demoOps_workflowRunUid)
    (simp add: setEnv_def noEnv_def)

lemma laterOps_state:
  "runOps env laterOps (streamEvent 5 ''_workflowRunRegistered'' (WorkflowRunRegistered ''run-1'') (fst demoConnected)) =
     (fst demoConnected)\<lparr>workflowRunUid := Some ''run-1'',
        bufferedEvents := [\<lparr>ev_name = ''taskComplete'', ev_payload = EventPayload JNull, ev_timestamp = 6\<rparr>],
        bufferedLogEntries := [demoLogEntry 0]\<rparr>"
  by (simp add: runOps_def laterOps_def streamEvent_def handleControlEvent_def controlEventNames_def
      streamLogEntry_def fst_demoConnected BufferedEventStream_new_def)

lemma laterOps_posts:
  "map post_url
     (fst (snd (flushBuffered env True
        (runOps env laterOps (streamEvent 5 ''_workflowRunRegistered'' (WorkflowRunRegistered ''run-1'') (fst demoConnected)))))) =
   [''https://enterprise.example/events'', ''https://enterprise.example/log-entries'']"
  "map (post_workflowRunUid \<circ> post_json)
     (fst (snd (flushBuffered env True
        (runOps env laterOps (streamEvent 5 ''_workflowRunRegistered'' (WorkflowRunRegistered ''run-1'') (fst demoConnected)))))) =
   [getWorkflowRunUid env ((fst demoConnected)\<lparr>workflowRunUid := Some ''run-1''\<rparr>),
    getWorkflowRunUid env ((fst demoConnected)\<lparr>workflowRunUid := Some ''run-1''\<rparr>)]"
  unfolding laterOps_state
  by (simp_all add: fst_demoConnected BufferedEventStream_new_def
      flushBuffered_active [where g = "demoGarden 1"] eventPosts_def logPosts_def
      eventFlushCount_def logFlushCount_def demoTarget_def getWorkflowRunUid_def split: option.splits)

subsection \<open>Control events\<close>

text \<open>
  C7, as amended. For an event whose name is in \<open>controlEventNames\<close>, \<^verbatim>\<open>streamEvent\<close>
  leaves the event buffer as it is and changes nothing but \<open>workflowRunUid\<close>, which takes
  the payload's \<^verbatim>\<open>workflowRunUid\<close>. When \<^verbatim>\<open>GARDEN_WORKFLOW_RUN_UID\<close> is unset or empty,
  every batch flushed afterwards, until the next control event, carries that id.
\<close>

theorem control_event_only_sets_workflowRunUid:
  assumes "n \<in> controlEventNames"
  shows "bufferedEvents (streamEvent now n p s) = bufferedEvents s
     \<and> streamEvent now n p s = s\<lparr>workflowRunUid := payload_workflowRunUid p\<rparr>
     \<and> ((GARDEN_WORKFLOW_RUN_UID env = None \<or> GARDEN_WORKFLOW_RUN_UID env = Some [])
          \<and> (\<forall>op \<in> set ops. \<not> isControlOp op) \<longrightarrow>
         (\<forall>q \<in> set (fst (snd (flushBuffered env flushAll (runOps env ops (streamEvent now n p s))))).
            post_workflowRunUid (post_json q) = payload_workflowRunUid p))"
proof -
  have eq: "streamEvent now n p s = s\<lparr>workflowRunUid := payload_workflowRunUid p\<rparr>"
    using assms by (rule streamEvent_control)
  have "post_workflowRunUid (post_json q) = payload_workflowRunUid p"
    if env: "GARDEN_WORKFLOW_RUN_UID env = None \<or> GARDEN_WORKFLOW_RUN_UID env = Some []"
      and ops: "\<forall>op \<in> set ops. \<not> isControlOp op"
      and q: "q \<in> set (fst (snd (flushBuffered env flushAll (runOps env ops (streamEvent now n p s)))))"
    for q
  proof -
    have "post_workflowRunUid (post_json q) = getWorkflowRunUid env (runOps env ops (streamEvent now n p s))"
      using q by (rule flushBuffered_posts_uid)
    also have "\<dots> = workflowRunUid (runOps env ops (streamEvent now n p s))"
      using env by (rule getWorkflowRunUid_no_env)
    also have "\<dots> = workflowRunUid (streamEvent now n p s)"
      using ops by (rule runOps_workflowRunUid)
    also have "\<dots> = payload_workflowRunUid p"
      by (simp add: eq)
    finally show ?thesis .
  qed
  with eq show ?thesis by simp
qed

theorem control_event_only_sets_workflowRunUid_witness:
  "''_workflowRunRegistered'' \<in> controlEventNames
   \<and> bufferedEvents (streamEvent 5 ''_workflowRunRegistered'' (WorkflowRunRegistered ''run-1'') (fst demoConnected)) = []
   \<and> workflowRunUid (streamEvent 5 ''_workflowRunRegistered'' (WorkflowRunRegistered ''run-1'') (fst demoConnected)) = Some ''run-1''
   \<and> map (post_workflowRunUid \<circ> post_json)
        (fst (snd (flushBuffered noEnv True
          (runOps noEnv laterOps (streamEvent 5 ''_workflowRunRegistered'' (WorkflowRunRegistered ''run-1'') (fst demoConnected)))))) =
      [Some ''run-1'', Some ''run-1'']"
proof -
  have c: "''_workflowRunRegistered'' \<in> controlEventNames"
    by (simp add: controlEventNames_def)
  have "bufferedEvents (streamEvent 5 ''_workflowRunRegistered'' (WorkflowRunRegistered ''run-1'') (fst demoConnected))
      = bufferedEvents (fst demoConnected)"
    using control_event_only_sets_workflowRunUid [OF c] by blast
  moreover have "bufferedEvents (fst demoConnected) = []"
    by (simp add: fst_demoConnected BufferedEventStream_new_def)
  moreover have "workflowRunUid (streamEvent 5 ''_workflowRunRegistered'' (WorkflowRunRegistered ''run-1'') (fst demoConnected))
      = Some ''run-1''"
    by (simp add: streamEvent_control [OF c])
  moreover have "getWorkflowRunUid noEnv ((fst demoConnected)\<lparr>workflowRunUid := Some ''run-1''\<rparr>) = Some ''run-1''"
    by (simp add: noEnv_def getWorkflowRunUid_def)
  ultimately show ?thesis
    using c by (simp add: laterOps_posts)
qed

text \<open>
  C7 as stated fails: with \<^verbatim>\<open>GARDEN_WORKFLOW_RUN_UID=wf-env\<close> in the environment, the
  batches flushed after the control event for run \<open>run-1\<close> carry \<open>wf-env\<close>, not \<open>run-1\<close>.
\<close>

theorem control_uid_not_attached_counterexample:
  "GARDEN_WORKFLOW_RUN_UID setEnv = Some ''wf-env''
   \<and> map (post_workflowRunUid \<circ> post_json)
        (fst (snd (flushBuffered setEnv True
          (runOps setEnv laterOps (streamEvent 5 ''_workflowRunRegistered'' (WorkflowRunRegistered ''run-1'') (fst demoConnected)))))) =
      [Some ''wf-env'', Some ''wf-env'']
   \<and> Some ''wf-env'' \<noteq> payload_workflowRunUid (WorkflowRunRegistered ''run-1'')"
proof -
  have "getWorkflowRunUid setEnv ((fst demoConnected)\<lparr>workflowRunUid := Some ''run-1''\<rparr>) = Some ''wf-env''"
    by (simp add: setEnv_def getWorkflowRunUid_def)
  then show ?thesis
    by (simp add: laterOps_posts) (simp add: setEnv_def)
qed

lemma intervalTick_state:
  "fst (fst (intervalTick env net sw)) = fst (flushBuffered env False (fst sw))"
  by (simp add: intervalTick_def split_def Let_def)

lemma intervalTick_posts:
  "snd (intervalTick env net sw) = fst (snd (flushBuffered env False (fst sw)))"
  by (simp add: intervalTick_def split_def Let_def)

subsection \<open>Delivery is attempted once\<close>

text \<open>
  C6. With a garden attached and a target configured, a flush cuts the flushed prefix off
  each buffer before any request is made and makes one request per target for each
  non-empty batch. The result does not depend on what the remote ends answer: whatever
  \<open>net\<close> accepts or refuses, the timer's flush leaves the same stream and the same
  attempts, and a refusal only adds a logged error. Nothing is put back and nothing is
  sent again.
\<close>

theorem delivery_at_most_once:
  assumes "garden s = Some g" and "targets s \<noteq> []"
  shows "fst (flushBuffered env flushAll s) =
           s\<lparr>bufferedEvents := drop (eventFlushCount flushAll s) (bufferedEvents s),
             bufferedLogEntries := drop (logFlushCount flushAll s) (bufferedLogEntries s)\<rparr>
     \<and> fst (snd (flushBuffered env flushAll s)) =
           eventPosts env s g (take (eventFlushCount flushAll s) (bufferedEvents s)) @
           logPosts env s g (take (logFlushCount flushAll s) (bufferedLogEntries s))
     \<and> intervalTick env net (s, w) =
           ((fst (flushBuffered env False s),
             logError (\<not> list_all net (fst (snd (flushBuffered env False s)))) w),
            fst (snd (flushBuffered env False s)))
     \<and> (take (eventFlushCount flushAll s) (bufferedEvents s) \<noteq> [] \<longrightarrow>
          map post_url (filter (\<lambda>p. post_events (post_json p) \<noteq> []) (fst (snd (flushBuffered env flushAll s))))
            = map (\<lambda>t. host t @ ''/events'') (targets s))
     \<and> (take (logFlushCount flushAll s) (bufferedLogEntries s) \<noteq> [] \<longrightarrow>
          map post_url (filter (\<lambda>p. post_logEntries (post_json p) \<noteq> []) (fst (snd (flushBuffered env flushAll s))))
            = map (\<lambda>t. host t @ ''/log-entries'') (targets s))"
proof -
  note fb = flushBuffered_active [OF assms]
  have a: "intervalTick env net (s, w) =
           ((fst (flushBuffered env False s),
             logError (\<not> list_all net (fst (snd (flushBuffered env False s)))) w),
            fst (snd (flushBuffered env False s)))"
    by (simp add: intervalTick_def fb flushRejected_def)
  have b: "map post_url (filter (\<lambda>p. post_events (post_json p) \<noteq> []) (eventPosts env s g evs @ logPosts env s g les))
            = map (\<lambda>t. host t @ ''/events'') (targets s)" if "evs \<noteq> []" for evs les
    using that by (simp add: eventPosts_def logPosts_def filter_map comp_def)
  have c: "map post_url (filter (\<lambda>p. post_logEntries (post_json p) \<noteq> []) (eventPosts env s g evs @ logPosts env s g les))
            = map (\<lambda>t. host t @ ''/log-entries'') (targets s)" if "les \<noteq> []" for evs les
    using that by (simp add: eventPosts_def logPosts_def filter_map comp_def)
  show ?thesis
    using a b c by (simp add: fb)
qed

theorem delivery_at_most_once_witness:
  "garden (fst oneEvent) = Some (demoGarden 1) \<and> targets (fst oneEvent) = [demoTarget]
   \<and> length (bufferedEvents (fst oneEvent)) = 1
   \<and> bufferedEvents (fst (fst (intervalTick noEnv failingNet oneEvent))) = []
   \<and> map post_url (snd (intervalTick noEnv failingNet oneEvent)) = [''https://enterprise.example/events'']
   \<and> loggedErrors (snd (fst (intervalTick noEnv failingNet oneEvent))) = Suc (loggedErrors (snd oneEvent))
   \<and> snd (intervalTick noEnv failingNet (fst (intervalTick noEnv failingNet oneEvent))) = []"
proof -
  have g: "garden (fst oneEvent) = Some (demoGarden 1)" and t: "targets (fst oneEvent) \<noteq> []"
    and t': "targets (fst oneEvent) = [demoTarget]"
    and e: "bufferedEvents (fst oneEvent) = [\<lparr>ev_name = ''taskComplete'', ev_payload = EventPayload JNull, ev_timestamp = 7\<rparr>]"
    and l: "bufferedLogEntries (fst oneEvent) = []" and m: "maxBatchSize (fst oneEvent) = 100"
    by (simp_all add: oneEvent_def streamEvent_def controlEventNames_def fst_demoConnected
        BufferedEventStream_new_def)
  note th = delivery_at_most_once [OF g t, of noEnv False failingNet "snd oneEvent"]
  have tick: "intervalTick noEnv failingNet oneEvent =
           ((fst (flushBuffered noEnv False (fst oneEvent)),
             logError (\<not> list_all failingNet (fst (snd (flushBuffered noEnv False (fst oneEvent))))) (snd oneEvent)),
            fst (snd (flushBuffered noEnv False (fst oneEvent))))"
    using th by simp
  have posts: "fst (snd (flushBuffered noEnv False (fst oneEvent))) =
      eventPosts noEnv (fst oneEvent) (demoGarden 1) (bufferedEvents (fst oneEvent))"
    using th by (simp add: eventFlushCount_def logFlushCount_def e l m logPosts_def)
  have st: "fst (flushBuffered noEnv False (fst oneEvent)) = (fst oneEvent)\<lparr>bufferedEvents := [], bufferedLogEntries := []\<rparr>"
    using th by (simp add: eventFlushCount_def logFlushCount_def e l m)
  let ?s2 = "(fst oneEvent)\<lparr>bufferedEvents := [], bufferedLogEntries := []\<rparr>"
  have g2: "garden ?s2 = Some (demoGarden 1)" and t2: "targets ?s2 \<noteq> []"
    by (simp_all add: g t')
  have "fst (snd (flushBuffered noEnv False ?s2)) = []"
    by (simp add: flushBuffered_active [OF g2 t2] eventFlushCount_def logFlushCount_def
        eventPosts_def logPosts_def)
  then have again: "snd (intervalTick noEnv failingNet (fst (intervalTick noEnv failingNet oneEvent))) = []"
    by (simp add: intervalTick_posts intervalTick_state st)
  show ?thesis
    using again by (simp add: g t' tick posts st e eventPosts_def demoTarget_def failingNet_def logError_def)
qed

lemma close_state:
  "fst (fst (close env net sw)) = fst (flushBuffered env True ((fst sw)\<lparr>intervalId := None\<rparr>))"
  by (simp add: close_def split_def Let_def)

lemma close_posts:
  "snd (close env net sw) = fst (snd (flushBuffered env True ((fst sw)\<lparr>intervalId := None\<rparr>)))"
  by (simp add: close_def split_def Let_def)

lemma close_timers:
  "activeTimers (snd (fst (close env net sw))) =
     (case intervalId (fst sw) of Some t \<Rightarrow> activeTimers (snd sw) - {t} | None \<Rightarrow> activeTimers (snd sw))"
  by (simp add: close_def split_def Let_def logError_def clearInterval_def split: option.splits)

subsection \<open>Closing the stream\<close>

text \<open>
  C3, as amended. \<^verbatim>\<open>close\<close> always stops the timer. When a garden is attached and the
  target list is not empty, it sends each buffered event and each buffered log entry once to
  every target (one batch per buffer and target, holding the whole buffer) and leaves both
  buffers empty. When no garden is attached or the target list is empty, \<^verbatim>\<open>flushBuffered\<close>
  returns at its guard: nothing is sent and both buffers stay as they were.
\<close>

theorem close_flushes_everything_when_active:
  "intervalId (fst (fst (close env net (s, w)))) = None
   \<and> (\<forall>t. intervalId s = Some t \<longrightarrow> t \<notin> activeTimers (snd (fst (close env net (s, w)))))
   \<and> (garden s \<noteq> None \<and> targets s \<noteq> [] \<longrightarrow>
        bufferedEvents (fst (fst (close env net (s, w)))) = []
        \<and> bufferedLogEntries (fst (fst (close env net (s, w)))) = []
        \<and> map (\<lambda>p. (post_url p, post_events (post_json p), post_logEntries (post_json p)))
              (snd (close env net (s, w))) =
            (if bufferedEvents s = [] then []
             else map (\<lambda>t. (host t @ ''/events'', bufferedEvents s, [])) (targets s)) @
            (if bufferedLogEntries s = [] then []
             else map (\<lambda>t. (host t @ ''/log-entries'', [], bufferedLogEntries s)) (targets s)))
   \<and> (garden s = None \<or> targets s = [] \<longrightarrow>
        bufferedEvents (fst (fst (close env net (s, w)))) = bufferedEvents s
        \<and> bufferedLogEntries (fst (fst (close env net (s, w)))) = bufferedLogEntries s
        \<and> snd (close env net (s, w)) = [])"
proof -
  let ?s1 = "s\<lparr>intervalId := None\<rparr>"
  have idle: "fst (fst (close env net (s, w))) = ?s1 \<and> snd (close env net (s, w)) = []"
    if "garden s = None \<or> targets s = []"
    using that by (simp add: close_state close_posts flushBuffered_idle)
  have active: "fst (fst (close env net (s, w))) = ?s1\<lparr>bufferedEvents := [], bufferedLogEntries := []\<rparr>
      \<and> snd (close env net (s, w)) = eventPosts env ?s1 g (bufferedEvents s) @ logPosts env ?s1 g (bufferedLogEntries s)"
    if g: "garden s = Some g" and t: "targets s \<noteq> []" for g
  proof -
    have g1: "garden ?s1 = Some g" and t1: "targets ?s1 \<noteq> []" using g t by simp_all
    show ?thesis
      by (simp add: close_state close_posts flushBuffered_active [OF g1 t1]
          eventFlushCount_def logFlushCount_def)
  qed
  have timer: "intervalId (fst (fst (close env net (s, w)))) = None"
  proof (cases "garden s = None \<or> targets s = []")
    case True
    then show ?thesis using idle by simp
  next
    case False
    then obtain g where "garden s = Some g" "targets s \<noteq> []" by auto
    then show ?thesis using active by simp
  qed
  have stopped: "\<forall>t. intervalId s = Some t \<longrightarrow> t \<notin> activeTimers (snd (fst (close env net (s, w))))"
    by (simp add: close_timers)
  have posts: "map (\<lambda>p. (post_url p, post_events (post_json p), post_logEntries (post_json p)))
        (eventPosts env ?s1 g (bufferedEvents s) @ logPosts env ?s1 g (bufferedLogEntries s)) =
      (if bufferedEvents s = [] then []
       else map (\<lambda>t. (host t @ ''/events'', bufferedEvents s, [])) (targets s)) @
      (if bufferedLogEntries s = [] then []
       else map (\<lambda>t. (host t @ ''/log-entries'', [], bufferedLogEntries s)) (targets s))" for g
    by (simp add: eventPosts_def logPosts_def comp_def)
  show ?thesis
    using timer stopped idle active posts by auto
qed

text \<open>
  C3 as stated fails: a stream that was never connected (no garden, no target) holds one
  event; after \<^verbatim>\<open>close\<close> the event is still buffered and no delivery was attempted.
\<close>

theorem close_keeps_buffer_counterexample:
  "targets (fst unconnected) = [] \<and> garden (fst unconnected) = None
   \<and> length (bufferedEvents (fst unconnected)) = 1
   \<and> bufferedEvents (fst (fst (close noEnv failingNet unconnected))) = bufferedEvents (fst unconnected)
   \<and> bufferedEvents (fst (fst (close noEnv failingNet unconnected))) \<noteq> []
   \<and> snd (close noEnv failingNet unconnected) = []"
  by (simp add: close_state close_posts flushBuffered_idle unconnected_def streamEvent_def
      controlEventNames_def BufferedEventStream_new_def)

lemma snd_demoConnected_timers: "activeTimers (snd demoConnected) = {2}"
  by (simp add: demoConnected_def connect_def BufferedEventStream_new_def demoWorld_def
      subscribeToGardenEvents_def startInterval_def demoEventNames_def Let_def)

lemma twoItems_state:
  "fst twoItems = (fst demoConnected)\<lparr>
        bufferedEvents := [\<lparr>ev_name = ''taskComplete'', ev_payload = EventPayload JNull, ev_timestamp = 6\<rparr>],
        bufferedLogEntries := [demoLogEntry 0]\<rparr>"
  by (simp add: twoItems_def runOps_def laterOps_def streamEvent_def controlEventNames_def
      streamLogEntry_def fst_demoConnected BufferedEventStream_new_def)

theorem close_flushes_everything_when_active_witness:
  "garden (fst twoItems) \<noteq> None \<and> targets (fst twoItems) = [demoTarget]
   \<and> intervalId (fst twoItems) = Some 2 \<and> 2 \<in> activeTimers (snd twoItems)
   \<and> length (bufferedEvents (fst twoItems)) = 1 \<and> length (bufferedLogEntries (fst twoItems)) = 1
   \<and> intervalId (fst (fst (close noEnv failingNet twoItems))) = None
   \<and> 2 \<notin> activeTimers (snd (fst (close noEnv failingNet twoItems)))
   \<and> bufferedEvents (fst (fst (close noEnv failingNet twoItems))) = []
   \<and> bufferedLogEntries (fst (fst (close noEnv failingNet twoItems))) = []
   \<and> map post_url (snd (close noEnv failingNet twoItems)) =
        [''https://enterprise.example/events'', ''https://enterprise.example/log-entries'']"
proof -
  have g: "garden (fst twoItems) \<noteq> None" and t: "targets (fst twoItems) = [demoTarget]"
    and i: "intervalId (fst twoItems) = Some 2"
    and e: "bufferedEvents (fst twoItems) = [\<lparr>ev_name = ''taskComplete'', ev_payload = EventPayload JNull, ev_timestamp = 6\<rparr>]"
    and l: "bufferedLogEntries (fst twoItems) = [demoLogEntry 0]"
    by (simp_all add: twoItems_state fst_demoConnected BufferedEventStream_new_def)
  have w: "2 \<in> activeTimers (snd twoItems)"
    by (simp add: twoItems_def snd_demoConnected_timers)
  note th = close_flushes_everything_when_active [of noEnv failingNet "fst twoItems" "snd twoItems"]
  have a: "intervalId (fst (fst (close noEnv failingNet twoItems))) = None"
    and b: "2 \<notin> activeTimers (snd (fst (close noEnv failingNet twoItems)))"
    using th i by simp_all
  have c: "bufferedEvents (fst (fst (close noEnv failingNet twoItems))) = []
      \<and> bufferedLogEntries (fst (fst (close noEnv failingNet twoItems))) = []
      \<and> map (\<lambda>p. (post_url p, post_events (post_json p), post_logEntries (post_json p)))
              (snd (close noEnv failingNet twoItems)) =
          [(''https://enterprise.example/events'', bufferedEvents (fst twoItems), []),
           (''https://enterprise.example/log-entries'', [], bufferedLogEntries (fst twoItems))]"
    using th g by (simp add: t e l demoTarget_def)
  then have "map fst (map (\<lambda>p. (post_url p, post_events (post_json p), post_logEntries (post_json p)))
              (snd (close noEnv failingNet twoItems))) =
          [''https://enterprise.example/events'', ''https://enterprise.example/log-entries'']"
    by simp
  then have d: "map post_url (snd (close noEnv failingNet twoItems)) =
        [''https://enterprise.example/events'', ''https://enterprise.example/log-entries'']"
    by (simp add: comp_def)
  show ?thesis
    using g t i w a b c d by (simp add: e l)
qed

lemma sixtyLogEntries_state:
  "sixtyLogEntries = (fst demoConnected)\<lparr>bufferedLogEntries := map demoLogEntry [0..<60]\<rparr>"
  by (simp add: sixtyLogEntries_def fold_streamLogEntry fst_demoConnected BufferedEventStream_new_def)

subsection \<open>The size of a periodic batch\<close>

text \<open>
  C1 at a concrete input. A connected stream with one target and the default
  \<open>maxBatchSize = 100\<close> holds 60 log entries. The timer's flush computes
  \<^verbatim>\<open>logEntryFlushCount = this.maxBatchSize - this.bufferedLogEntries.length = 40\<close>: the
  batch holds the 40 oldest entries and 20 stay buffered, where the events buffer would
  have been cut at \<open>min 60 100 = 60\<close>.
\<close>

theorem periodic_flush_sends_forty_of_sixty_log_entries:
  "length (bufferedLogEntries sixtyLogEntries) = 60
   \<and> maxBatchSize sixtyLogEntries = 100
   \<and> map (post_logEntries \<circ> post_json) (fst (snd (flushBuffered noEnv False sixtyLogEntries))) =
       [map demoLogEntry [0..<40]]
   \<and> bufferedLogEntries (fst (flushBuffered noEnv False sixtyLogEntries)) = map demoLogEntry [40..<60]"
proof -
  have g: "garden sixtyLogEntries = Some (demoGarden 1)" and t: "targets sixtyLogEntries \<noteq> []"
    and t': "targets sixtyLogEntries = [demoTarget]"
    and e: "bufferedEvents sixtyLogEntries = []"
    and l: "bufferedLogEntries sixtyLogEntries = map demoLogEntry [0..<60]"
    and m: "maxBatchSize sixtyLogEntries = 100"
    by (simp_all add: sixtyLogEntries_state fst_demoConnected BufferedEventStream_new_def)
  have k: "logFlushCount False sixtyLogEntries = 40"
    by (simp add: logFlushCount_def l m)
  have tk: "take 40 (map demoLogEntry [0..<60]) = map demoLogEntry [0..<40]"
    by (simp add: take_map)
  have dr: "drop 40 (map demoLogEntry [0..<60]) = map demoLogEntry [40..<60]"
    by (simp add: drop_map)
  have ne: "map demoLogEntry [0..<40] \<noteq> []"
    by simp
  show ?thesis
    by (simp add: flushBuffered_active [OF g t] k e l m tk dr eventPosts_def logPosts_def t' ne
        del: upt_Suc)
qed

subsection \<open>Reconnecting\<close>

lemma objSet_new: "k \<notin> fst ` set m \<Longrightarrow> objSet k v m = m @ [(k, v)]"
  by (induction m) auto

lemma map_fst_freshRegs [simp]: "map fst (freshRegs k ns) = ns"
  by (induction ns arbitrary: k) simp_all

lemma filter_stream_freshRegs [simp]:
  "filter (\<lambda>r. isStreamListener (snd r)) (freshRegs k ns) = freshRegs k ns"
  by (induction ns arbitrary: k) simp_all

lemma filter_other_freshRegs [simp]:
  "filter (\<lambda>r. \<not> isStreamListener (snd r)) (freshRegs k ns) = []"
  by (induction ns arbitrary: k) simp_all

lemma subscribeLoop_eq:
  "distinct ns \<Longrightarrow> set ns \<inter> fst ` set m = {} \<Longrightarrow>
   subscribeLoop ns m bus k =
     (m @ freshRegs k ns, bus\<lparr>listeners := listeners bus @ freshRegs k ns\<rparr>, k + length ns)"
proof (induction ns arbitrary: m bus k)
  case Nil
  then show ?case by simp
next
  case (Cons n ns)
  have new: "objSet n (StreamListener k n) m = m @ [(n, StreamListener k n)]"
    using Cons.prems by (intro objSet_new) auto
  have "set ns \<inter> fst ` set (m @ [(n, StreamListener k n)]) = {}"
    using Cons.prems by auto
  with Cons.prems have "subscribeLoop ns (m @ [(n, StreamListener k n)]) (EventBus_on n (StreamListener k n) bus) (Suc k) =
     ((m @ [(n, StreamListener k n)]) @ freshRegs (Suc k) ns,
      (EventBus_on n (StreamListener k n) bus)\<lparr>listeners := listeners (EventBus_on n (StreamListener k n) bus) @ freshRegs (Suc k) ns\<rparr>,
      Suc k + length ns)"
    by (intro Cons.IH) auto
  then show ?case
    by (simp add: new EventBus_on_def)
qed

lemma fold_removeListener:
  "fold (\<lambda>e. EventBus_removeListener (fst e) (snd e)) m bus = bus\<lparr>listeners := fold remove1 m (listeners bus)\<rparr>"
  by (induction m arbitrary: bus) (simp_all add: EventBus_removeListener_def)

lemma filter_remove1_head:
  "filter P xs = p # m \<Longrightarrow>
   filter P (remove1 p xs) = m \<and> filter (\<lambda>x. \<not> P x) (remove1 p xs) = filter (\<lambda>x. \<not> P x) xs"
proof (induction xs)
  case Nil
  then show ?case by simp
next
  case (Cons x xs)
  show ?case
  proof (cases "P x")
    case True
    with Cons.prems show ?thesis by simp
  next
    case False
    have "set (filter P (x # xs)) = set (p # m)" using Cons.prems by (rule arg_cong)
    then have "p \<in> {y \<in> set (x # xs). P y}" unfolding set_filter by simp
    then have "P p" by blast
    with False have "x \<noteq> p" by auto
    with False Cons show ?thesis by simp
  qed
qed

lemma filter_fold_remove1:
  "filter P xs = m \<Longrightarrow>
   filter P (fold remove1 m xs) = [] \<and> filter (\<lambda>x. \<not> P x) (fold remove1 m xs) = filter (\<lambda>x. \<not> P x) xs"
proof (induction m arbitrary: xs)
  case Nil
  then show ?case by simp
next
  case (Cons p m)
  from filter_remove1_head [OF Cons.prems]
  have a: "filter P (remove1 p xs) = m"
    and b: "filter (\<lambda>x. \<not> P x) (remove1 p xs) = filter (\<lambda>x. \<not> P x) xs" by simp_all
  from Cons.IH [OF a] b show ?case by simp
qed

lemma distinct_count_one:
  "distinct xs \<Longrightarrow> length (filter (\<lambda>x. x = n) xs) = (if n \<in> set xs then 1 else 0)"
  by (induction xs) auto

lemma streamListenerCount_regs:
  "streamListenerCount n bus = length (filter (\<lambda>x. x = n) (map fst (streamRegs bus)))"
  by (simp add: streamListenerCount_def streamRegs_def filter_map comp_def conj_commute)

lemma unsubscribed_bus:
  "streamRegs (fold (\<lambda>e. EventBus_removeListener (fst e) (snd e)) (streamRegs bus) bus) = []"
  "otherRegs (fold (\<lambda>e. EventBus_removeListener (fst e) (snd e)) (streamRegs bus) bus) = otherRegs bus"
  "anyListeners (fold (\<lambda>e. EventBus_removeListener (fst e) (snd e)) (streamRegs bus) bus) = anyListeners bus"
  using filter_fold_remove1 [of "\<lambda>r. isStreamListener (snd r)" "listeners bus" "streamRegs bus"]
  by (simp_all add: fold_removeListener streamRegs_def otherRegs_def)

lemma clear_timers:
  assumes "streamInv eventNames w0 sw"
  shows "activeTimers (case intervalId (fst sw) of Some t \<Rightarrow> clearInterval t (snd sw) | None \<Rightarrow> snd sw)
           = activeTimers w0"
  using assms by (auto simp: streamInv_def clearInterval_def split: option.splits)

lemma connect_detach:
  assumes inv: "streamInv eventNames w0 sw"
  defines "w1 \<equiv> (case intervalId (fst sw) of Some t \<Rightarrow> clearInterval t (snd sw) | None \<Rightarrow> snd sw)"
  assumes s1: "garden s1 = garden (fst sw)" "gardenEventListeners s1 = gardenEventListeners (fst sw)"
  shows "\<exists>w2. (case garden s1 of
                 Some old \<Rightarrow> unsubscribeFromGardenEvents (gardenId old) (s1, w1)
               | None \<Rightarrow> Inr (s1, w1)) = Inr (s1, w2) \<and> detached w0 w2"
proof -
  have b1: "buses w1 = buses (snd sw)" and n1: "nextId w1 = nextId (snd sw)"
    by (simp_all add: w1_def clearInterval_def split: option.splits)
  have t1: "activeTimers w1 = activeTimers w0"
    unfolding w1_def using inv by (rule clear_timers)
  have lt: "\<forall>t \<in> activeTimers w0. t < nextId w1"
    using inv by (auto simp: streamInv_def n1)
  have other: "\<forall>b. otherRegs (buses w1 b) = otherRegs (buses w0 b)
              \<and> anyListeners (buses w1 b) = anyListeners (buses w0 b)"
    using inv by (simp add: streamInv_def b1)
  show ?thesis
  proof (cases "garden (fst sw)")
    case None
    with inv have "\<forall>b. streamRegs (buses w1 b) = []"
      by (simp add: streamInv_def b1)
    with other t1 lt have "detached w0 w1" by (simp add: detached_def)
    with None s1 show ?thesis by simp
  next
    case (Some old)
    with inv have m: "gardenEventListeners (fst sw) = Some (streamRegs (buses w1 (gardenId old)))"
      and rest: "\<forall>b. b \<noteq> gardenId old \<longrightarrow> streamRegs (buses w1 b) = []"
      by (simp_all add: streamInv_def b1)
    let ?bus = "fold (\<lambda>e. EventBus_removeListener (fst e) (snd e)) (streamRegs (buses w1 (gardenId old))) (buses w1 (gardenId old))"
    let ?w2 = "w1\<lparr>buses := (buses w1)(gardenId old := ?bus)\<rparr>"
    have "unsubscribeFromGardenEvents (gardenId old) (s1, w1) = Inr (s1, ?w2)"
      by (simp add: unsubscribeFromGardenEvents_def s1 m)
    moreover have "detached w0 ?w2"
      using other t1 lt rest by (simp add: detached_def unsubscribed_bus)
    ultimately show ?thesis using Some s1 by auto
  qed
qed

lemma connect_attach:
  assumes d: "distinct eventNames" and det: "detached w0 w2"
  shows "streamInv eventNames w0
           (startInterval (subscribeToGardenEvents eventNames (gardenId g) (s1\<lparr>garden := Some g\<rparr>, w2)))"
proof -
  let ?k = "nextId w2"
  let ?bus = "buses w2 (gardenId g)"
  have loop: "subscribeLoop eventNames [] ?bus ?k =
     (freshRegs ?k eventNames, ?bus\<lparr>listeners := listeners ?bus @ freshRegs ?k eventNames\<rparr>, ?k + length eventNames)"
    using subscribeLoop_eq [OF d, of "[]" ?bus ?k] by simp
  have regs: "streamRegs (?bus\<lparr>listeners := listeners ?bus @ freshRegs ?k eventNames\<rparr>) = freshRegs ?k eventNames"
    using det by (simp add: detached_def streamRegs_def)
  have others: "otherRegs (?bus\<lparr>listeners := listeners ?bus @ freshRegs ?k eventNames\<rparr>) = otherRegs ?bus"
    by (simp add: otherRegs_def)
  show ?thesis
    using det regs others
    by (auto simp: streamInv_def subscribeToGardenEvents_def startInterval_def loop detached_def)
qed

lemma connect_inv:
  assumes d: "distinct eventNames" and inv: "streamInv eventNames w0 sw"
  shows "\<exists>sw'. connect eventNames g ts sw = Inr sw' \<and> streamInv eventNames w0 sw'
            \<and> garden (fst sw') = Some g \<and> intervalId (fst sw') \<noteq> None"
proof -
  let ?s1 = "(case ts of Some ts' \<Rightarrow> (fst sw)\<lparr>targets := ts'\<rparr> | None \<Rightarrow> fst sw)"
  have s1: "garden ?s1 = garden (fst sw)" "gardenEventListeners ?s1 = gardenEventListeners (fst sw)"
    by (simp_all split: option.splits)
  from connect_detach [OF inv s1] obtain w2 where
    u: "(case garden ?s1 of
                 Some old \<Rightarrow> unsubscribeFromGardenEvents (gardenId old)
                    (?s1, case intervalId (fst sw) of Some t \<Rightarrow> clearInterval t (snd sw) | None \<Rightarrow> snd sw)
               | None \<Rightarrow> Inr (?s1, case intervalId (fst sw) of Some t \<Rightarrow> clearInterval t (snd sw) | None \<Rightarrow> snd sw))
         = Inr (?s1, w2)" and det: "detached w0 w2"
    by blast
  have c: "connect eventNames g ts sw =
      Inr (startInterval (subscribeToGardenEvents eventNames (gardenId g) (?s1\<lparr>garden := Some g\<rparr>, w2)))"
    unfolding connect_def Let_def u by simp
  have "garden (fst (startInterval (subscribeToGardenEvents eventNames (gardenId g) (?s1\<lparr>garden := Some g\<rparr>, w2)))) = Some g"
    "intervalId (fst (startInterval (subscribeToGardenEvents eventNames (gardenId g) (?s1\<lparr>garden := Some g\<rparr>, w2)))) \<noteq> None"
    by (simp_all add: startInterval_def subscribeToGardenEvents_def split_def Let_def)
  with c connect_attach [OF d det] show ?thesis by simp
qed

lemma connects_inv:
  assumes d: "distinct eventNames"
  shows "streamInv eventNames w0 sw \<Longrightarrow> cs \<noteq> [] \<Longrightarrow>
     \<exists>sw'. connects eventNames cs sw = Inr sw' \<and> streamInv eventNames w0 sw'
        \<and> garden (fst sw') = Some (fst (last cs)) \<and> intervalId (fst sw') \<noteq> None"
proof (induction cs arbitrary: sw)
  case Nil
  then show ?case by simp
next
  case (Cons c cs)
  from connect_inv [OF d Cons.prems(1), of "fst c" "snd c"] obtain sw1 where
    c1: "connect eventNames (fst c) (snd c) sw = Inr sw1" and i1: "streamInv eventNames w0 sw1"
    and g1: "garden (fst sw1) = Some (fst c)" and t1: "intervalId (fst sw1) \<noteq> None"
    by blast
  show ?case
  proof (cases "cs = []")
    case True
    with c1 i1 g1 t1 show ?thesis by simp
  next
    case False
    from Cons.IH [OF i1 False] c1 False show ?thesis by simp
  qed
qed

lemma initial_inv:
  "worldFresh w0 \<Longrightarrow> streamInv eventNames w0 (BufferedEventStream_new sid, w0)"
  by (simp add: worldFresh_def streamInv_def BufferedEventStream_new_def)

lemma streamInv_counts:
  assumes d: "distinct eventNames" and inv: "streamInv eventNames w0 sw" and g: "garden (fst sw) = Some g"
  shows "streamListenerCount n (buses (snd sw) b) = (if b = gardenId g \<and> n \<in> set eventNames then 1 else 0)"
proof (cases "b = gardenId g")
  case True
  from inv g have "map fst (streamRegs (buses (snd sw) (gardenId g))) = eventNames"
    by (simp add: streamInv_def)
  with d True show ?thesis
    by (simp add: streamListenerCount_regs distinct_count_one)
next
  case False
  with inv g have "streamRegs (buses (snd sw) b) = []"
    by (simp add: streamInv_def)
  with False show ?thesis
    by (simp add: streamListenerCount_regs)
qed

text \<open>
  C8. Start from a new stream in a world it has not touched, and make any non-empty
  sequence of \<^verbatim>\<open>connect\<close> calls (\<open>eventNames\<close> without repetition). No call throws.
  Afterwards the last garden is attached; exactly one timer has been added to the world's, the
  one in \<open>intervalId\<close> (every earlier one was cleared); for every event name exactly one
  closure of the stream is registered on the last garden's bus and none on any other bus;
  the registrations of everybody else are untouched.
\<close>

theorem connect_leaves_one_timer_and_one_listener:
  assumes "distinct eventNames" and "worldFresh w0" and "cs \<noteq> []"
  shows "\<exists>s w t. connects eventNames cs (BufferedEventStream_new sid, w0) = Inr (s, w)
          \<and> garden s = Some (fst (last cs))
          \<and> intervalId s = Some t \<and> t \<notin> activeTimers w0 \<and> activeTimers w = insert t (activeTimers w0)
          \<and> (\<forall>b n. streamListenerCount n (buses w b) =
                 (if b = gardenId (fst (last cs)) \<and> n \<in> set eventNames then 1 else 0))
          \<and> (\<forall>b. otherRegs (buses w b) = otherRegs (buses w0 b)
                 \<and> anyListeners (buses w b) = anyListeners (buses w0 b))"
proof -
  from connects_inv [OF assms(1) initial_inv [OF assms(2)] assms(3)] obtain sw' where
    c: "connects eventNames cs (BufferedEventStream_new sid, w0) = Inr sw'"
    and inv: "streamInv eventNames w0 sw'"
    and g: "garden (fst sw') = Some (fst (last cs))" and i: "intervalId (fst sw') \<noteq> None"
    by blast
  from i obtain t where t: "intervalId (fst sw') = Some t" by auto
  from inv t have tm: "t \<notin> activeTimers w0" "activeTimers (snd sw') = insert t (activeTimers w0)"
    by (auto simp: streamInv_def)
  from inv have o: "\<forall>b. otherRegs (buses (snd sw') b) = otherRegs (buses w0 b)
                 \<and> anyListeners (buses (snd sw') b) = anyListeners (buses w0 b)"
    by (simp add: streamInv_def)
  have cnt: "\<forall>b n. streamListenerCount n (buses (snd sw') b) =
                 (if b = gardenId (fst (last cs)) \<and> n \<in> set eventNames then 1 else 0)"
    using streamInv_counts [OF assms(1) inv g] by blast
  have "connects eventNames cs (BufferedEventStream_new sid, w0) = Inr (fst sw', snd sw')"
    using c by simp
  with g t tm o cnt show ?thesis by blast
qed

theorem connect_leaves_one_timer_and_one_listener_witness:
  "distinct demoEventNames \<and> worldFresh demoWorld \<and> twoConnects \<noteq> []
   \<and> (\<exists>s w t. connects demoEventNames twoConnects (BufferedEventStream_new ''session-1'', demoWorld) = Inr (s, w)
          \<and> garden s = Some (demoGarden 2)
          \<and> intervalId s = Some t \<and> activeTimers w = {t}
          \<and> streamListenerCount ''taskComplete'' (buses w 2) = 1
          \<and> streamListenerCount ''taskComplete'' (buses w 1) = 0)"
proof -
  have d: "distinct demoEventNames" by (simp add: demoEventNames_def)
  have f: "worldFresh demoWorld"
    by (simp add: worldFresh_def demoWorld_def streamRegs_def EventBus_new_def)
  have n: "twoConnects \<noteq> []" by (simp add: twoConnects_def)
  from connect_leaves_one_timer_and_one_listener [OF d f n, of "''session-1''"]
  obtain s w t where
    c: "connects demoEventNames twoConnects (BufferedEventStream_new ''session-1'', demoWorld) = Inr (s, w)"
    and g: "garden s = Some (fst (last twoConnects))"
    and t: "intervalId s = Some t" "activeTimers w = insert t (activeTimers demoWorld)"
    and cnt: "\<forall>b n. streamListenerCount n (buses w b) =
                 (if b = gardenId (fst (last twoConnects)) \<and> n \<in> set demoEventNames then 1 else 0)"
    by blast
  have "garden s = Some (demoGarden 2)" using g by (simp add: twoConnects_def)
  moreover have "activeTimers w = {t}" using t by (simp add: demoWorld_def)
  moreover have "streamListenerCount ''taskComplete'' (buses w 2) = 1"
    "streamListenerCount ''taskComplete'' (buses w 1) = 0"
    using cnt by (simp_all add: twoConnects_def demoGarden_def demoEventNames_def)
  ultimately show ?thesis using d f n c t by blast
qed

section \<open>Properties of the server\<close>

lemma send_fields [simp]:
  "srv_garden (send c m srv) = srv_garden srv"
  "srv_authKey (send c m srv) = srv_authKey srv"
  "srv_incomingEvents (send c m srv) = srv_incomingEvents srv"
  "srv_analytics (send c m srv) = srv_analytics srv"
  "srv_gardenCalls (send c m srv) = srv_gardenCalls srv"
  "srv_incomingEmitted (send c m srv) = srv_incomingEmitted srv"
  by (simp_all add: send_def)

lemma invoke_fields [simp]:
  "srv_garden (invoke n p l srv) = srv_garden srv"
  "srv_authKey (invoke n p l srv) = srv_authKey srv"
  "srv_incomingEvents (invoke n p l srv) = srv_incomingEvents srv"
  "srv_analytics (invoke n p l srv) = srv_analytics srv"
  "srv_gardenCalls (invoke n p l srv) = srv_gardenCalls srv"
  "srv_incomingEmitted (invoke n p l srv) = srv_incomingEmitted srv"
  by (cases l; simp)+

lemma fold_invoke_fields [simp]:
  "srv_garden (fold (invoke n p) ls srv) = srv_garden srv"
  "srv_authKey (fold (invoke n p) ls srv) = srv_authKey srv"
  "srv_incomingEvents (fold (invoke n p) ls srv) = srv_incomingEvents srv"
  "srv_analytics (fold (invoke n p) ls srv) = srv_analytics srv"
  "srv_gardenCalls (fold (invoke n p) ls srv) = srv_gardenCalls srv"
  "srv_incomingEmitted (fold (invoke n p) ls srv) = srv_incomingEmitted srv"
  by (induction ls arbitrary: srv; simp)+

lemma emitIncoming_fields [simp]:
  "srv_garden (emitIncoming n p srv) = srv_garden srv"
  "srv_authKey (emitIncoming n p srv) = srv_authKey srv"
  "srv_incomingEvents (emitIncoming n p srv) = srv_incomingEvents srv"
  "srv_analytics (emitIncoming n p srv) = srv_analytics srv"
  "srv_gardenCalls (emitIncoming n p srv) = srv_gardenCalls srv"
  "srv_incomingEmitted (emitIncoming n p srv) = srv_incomingEmitted srv @ [(n, p)]"
  by (simp_all add: emitIncoming_def)

lemma emitEach_no_null:
  "JNull \<notin> set items \<Longrightarrow>
   fst (emitEach items srv) = None
   \<and> srv_incomingEmitted (snd (emitEach items srv)) =
       srv_incomingEmitted srv @ map (\<lambda>e. (getProp e ''name'', getProp e ''payload'')) items
   \<and> srv_garden (snd (emitEach items srv)) = srv_garden srv
   \<and> srv_authKey (snd (emitEach items srv)) = srv_authKey srv
   \<and> srv_incomingEvents (snd (emitEach items srv)) = srv_incomingEvents srv
   \<and> srv_gardenCalls (snd (emitEach items srv)) = srv_gardenCalls srv"
  by (induction items srv rule: emitEach.induct) simp_all

lemma postEvents_rejects:
  "authHeader \<noteq> Some (srv_authKey srv) \<Longrightarrow>
   postEvents authHeader body srv = (Inr (ctx0\<lparr>resp_status := 401\<rparr>), srv)"
  by (simp add: postEvents_def)

lemma postEvents_accepts:
  assumes "getProp body ''events'' = Some (JArr items)"
  shows "postEvents (Some (srv_authKey srv)) body srv =
     (case fst (emitEach items srv) of
        Some e \<Rightarrow> (Inl e, snd (emitEach items srv))
      | None \<Rightarrow> (Inr (ctx0\<lparr>resp_status := 200\<rparr>), snd (emitEach items srv)))"
  using assms by (cases body) (simp_all add: postEvents_def split: prod.splits option.splits)

subsection \<open>The events endpoint\<close>

text \<open>
  C4, as amended. A \<^verbatim>\<open>POST /events\<close> request whose auth header is missing or differs from
  \<open>authKey\<close> is answered with status 401 and leaves the server as it was: nothing is
  published. A request with the right key whose body holds an \<^verbatim>\<open>events\<close> array without
  null items is answered with status 200, and every item of the array is published on
  \<open>incomingEvents\<close>, in order, with its \<^verbatim>\<open>name\<close> and \<^verbatim>\<open>payload\<close>.
\<close>

theorem postEvents_checks_key_then_publishes:
  "(authHeader \<noteq> Some (srv_authKey srv) \<longrightarrow>
      postEvents authHeader body srv = (Inr (ctx0\<lparr>resp_status := 401\<rparr>), srv))
   \<and> (authHeader = Some (srv_authKey srv) \<and> getProp body ''events'' = Some (JArr items)
        \<and> JNull \<notin> set items \<longrightarrow>
      fst (postEvents authHeader body srv) = Inr (ctx0\<lparr>resp_status := 200\<rparr>)
      \<and> srv_incomingEmitted (snd (postEvents authHeader body srv)) =
          srv_incomingEmitted srv @ map (\<lambda>e. (getProp e ''name'', getProp e ''payload'')) items)"
proof -
  have "fst (postEvents authHeader body srv) = Inr (ctx0\<lparr>resp_status := 200\<rparr>)
      \<and> srv_incomingEmitted (snd (postEvents authHeader body srv)) =
          srv_incomingEmitted srv @ map (\<lambda>e. (getProp e ''name'', getProp e ''payload'')) items"
    if a: "authHeader = Some (srv_authKey srv)" and b: "getProp body ''events'' = Some (JArr items)"
      and c: "JNull \<notin> set items"
    using emitEach_no_null [OF c, of srv] by (simp add: a postEvents_accepts [OF b])
  then show ?thesis
    by (simp add: postEvents_rejects)
qed

text \<open>
  C10. The body is not validated: with the right key and a body whose \<^verbatim>\<open>events\<close> is not
  an array (missing, null, or of another kind), the handler throws a \<^verbatim>\<open>TypeError\<close>
  instead of setting a status. So the authenticated branch is not total over request bodies.
\<close>

theorem postEvents_unvalidated_body_throws:
  assumes "\<forall>items. getProp body ''events'' \<noteq> Some (JArr items)"
  shows "postEvents (Some (srv_authKey srv)) body srv = (Inl TypeError, srv)"
proof (cases "body = JNull")
  case True
  then show ?thesis by (simp add: postEvents_def)
next
  case False
  show ?thesis
  proof (cases "getProp body ''events''")
    case None
    with False show ?thesis by (cases body) (simp_all add: postEvents_def)
  next
    case (Some ev)
    with assms have "\<forall>items. ev \<noteq> JArr items" by simp
    with Some False show ?thesis
      by (cases body; cases ev) (simp_all add: postEvents_def)
  qed
qed

lemma demoReady_eq:
  "fst demoReady = demoServer\<lparr>srv_garden := Some (demoGarden 1)\<rparr>"
  "buses (snd demoReady) = (\<lambda>_. EventBus_new)(1 := \<lparr>listeners = [(''serversUpdated'', ServersUpdatedListener)], anyListeners = []\<rparr>)"
  by (simp_all add: demoReady_def setGarden_def demoServer_def GardenServer_new_def demoWorld_def
      demoGarden_def EventBus_on_def EventBus_new_def Let_def)

lemma withSocket_eq:
  "fst withSocket = demoServer\<lparr>srv_garden := Some (demoGarden 1),
      srv_incomingEvents := \<lparr>listeners = [], anyListeners = [SocketEventListener 7]\<rparr>,
      srv_sockets := (srv_sockets demoServer)(7 := \<lparr>sock_open = True, sock_hasHandlers = True, sock_sent = []\<rparr>)\<rparr>"
  "buses (snd withSocket) = (\<lambda>_. EventBus_new)
      (1 := \<lparr>listeners = [(''serversUpdated'', ServersUpdatedListener)], anyListeners = [SocketEventListener 7]\<rparr>)"
  by (simp_all add: withSocket_def wsConnect_def demoReady_eq Let_def demoServer_def GardenServer_new_def
      demoGarden_def EventBus_onAny_def EventBus_new_def)

lemma demoBatch_events:
  "getProp demoBatch ''events'' = Some (JArr [demoEventItem, JObj [(''name'', JStr ''taskGraphComplete'')]])"
  by (simp add: demoBatch_def)

theorem postEvents_checks_key_then_publishes_witness:
  "srv_authKey (fst withSocket) = ''secret-key''
   \<and> postEvents (Some ''guess'') demoBatch (fst withSocket) = (Inr (ctx0\<lparr>resp_status := 401\<rparr>), fst withSocket)
   \<and> postEvents None demoBatch (fst withSocket) = (Inr (ctx0\<lparr>resp_status := 401\<rparr>), fst withSocket)
   \<and> fst (postEvents (Some ''secret-key'') demoBatch (fst withSocket)) = Inr (ctx0\<lparr>resp_status := 200\<rparr>)
   \<and> srv_incomingEmitted (snd (postEvents (Some ''secret-key'') demoBatch (fst withSocket))) =
        [(Some (JStr ''taskComplete''), Some (JObj [(''ok'', JBool True)])),
         (Some (JStr ''taskGraphComplete''), None)]
   \<and> sock_sent (srv_sockets (snd (postEvents (Some ''secret-key'') demoBatch (fst withSocket))) 7) =
        [EventMsg (Some (JStr ''taskComplete'')) (Some (JObj [(''ok'', JBool True)])),
         EventMsg (Some (JStr ''taskGraphComplete'')) None]"
proof -
  have k: "srv_authKey (fst withSocket) = ''secret-key''"
    by (simp add: withSocket_eq demoServer_def GardenServer_new_def)
  have e: "srv_incomingEmitted (fst withSocket) = []"
    by (simp add: withSocket_eq demoServer_def GardenServer_new_def)
  have n: "JNull \<notin> set [demoEventItem, JObj [(''name'', JStr ''taskGraphComplete'')]]"
    by (simp add: demoEventItem_def)
  note th = postEvents_checks_key_then_publishes [of _ "fst withSocket" demoBatch
      "[demoEventItem, JObj [(''name'', JStr ''taskGraphComplete'')]]"]
  have a: "postEvents (Some ''guess'') demoBatch (fst withSocket) = (Inr (ctx0\<lparr>resp_status := 401\<rparr>), fst withSocket)"
    "postEvents None demoBatch (fst withSocket) = (Inr (ctx0\<lparr>resp_status := 401\<rparr>), fst withSocket)"
    using th [of "Some ''guess''"] th [of None] by (simp_all add: k)
  have b: "fst (postEvents (Some ''secret-key'') demoBatch (fst withSocket)) = Inr (ctx0\<lparr>resp_status := 200\<rparr>)
      \<and> srv_incomingEmitted (snd (postEvents (Some ''secret-key'') demoBatch (fst withSocket))) =
        [(Some (JStr ''taskComplete''), Some (JObj [(''ok'', JBool True)])),
         (Some (JStr ''taskGraphComplete''), None)]"
    using th [of "Some ''secret-key''"] n by (simp add: k e demoBatch_events) (simp add: demoEventItem_def)
  have c: "sock_sent (srv_sockets (snd (postEvents (Some ''secret-key'') demoBatch (fst withSocket))) 7) =
        [EventMsg (Some (JStr ''taskComplete'')) (Some (JObj [(''ok'', JBool True)])),
         EventMsg (Some (JStr ''taskGraphComplete'')) None]"
    by (simp add: postEvents_def demoBatch_def demoEventItem_def withSocket_eq demoServer_def
        GardenServer_new_def emitIncoming_def EventBus_emit_def send_def)
  show ?thesis using k a b c by simp
qed

text \<open>
  C4 as stated fails: with the right key and the events array \<open>[item, null]\<close>, the first
  item is published and the handler then throws; the status is never set to 200.
\<close>

theorem postEvents_null_item_counterexample:
  "fst (postEvents (Some (srv_authKey demoServer)) brokenBatch demoServer) = Inl TypeError
   \<and> srv_incomingEmitted (snd (postEvents (Some (srv_authKey demoServer)) brokenBatch demoServer)) =
        [(Some (JStr ''taskComplete''), Some (JObj [(''ok'', JBool True)]))]"
  by (simp add: postEvents_def brokenBatch_def demoEventItem_def demoServer_def
      GardenServer_new_def emitIncoming_def EventBus_emit_def EventBus_new_def)

theorem postEvents_unvalidated_body_throws_witness:
  "getProp noEventsBody ''events'' = None
   \<and> postEvents (Some ''secret-key'') noEventsBody demoServer = (Inl TypeError, demoServer)"
proof -
  have a: "getProp noEventsBody ''events'' = None"
    by (simp add: noEventsBody_def)
  then have "\<forall>items. getProp noEventsBody ''events'' \<noteq> Some (JArr items)" by simp
  from postEvents_unvalidated_body_throws [OF this, of demoServer] a show ?thesis
    by (simp add: demoServer_def GardenServer_new_def)
qed

lemma switched_eq:
  "fst switched = (fst withSocket)\<lparr>srv_garden := Some (demoGarden 2)\<rparr>"
  "buses (snd switched) = (\<lambda>_. EventBus_new)
      (1 := \<lparr>listeners = [], anyListeners = [SocketEventListener 7]\<rparr>,
       2 := \<lparr>listeners = [(''serversUpdated'', ServersUpdatedListener)], anyListeners = []\<rparr>)"
  by (simp_all add: switched_def setGarden_def withSocket_eq Let_def demoGarden_def
      EventBus_removeListener_def EventBus_on_def EventBus_new_def)

subsection \<open>Attaching another garden\<close>

text \<open>
  C2 at a concrete input. Garden 1 is attached, connection 7 opens, then \<^verbatim>\<open>setGarden\<close>
  attaches garden 2. \<^verbatim>\<open>setGarden\<close> takes only \<^verbatim>\<open>serversUpdatedListener\<close> off the old
  bus, so the connection's \<^verbatim>\<open>eventListener\<close> is still registered there: an event
  published on garden 1's bus is sent on the open socket, an event of garden 2 is not, and
  closing the connection takes the listener off garden 2's bus, not garden 1's.
\<close>

theorem old_garden_events_still_reach_socket:
  "srv_garden (fst switched) = Some (demoGarden 2)
   \<and> sock_open (srv_sockets (fst switched) 7)
   \<and> sock_sent (srv_sockets (fst switched) 7) = []
   \<and> sock_sent (srv_sockets (fst (gardenEmit (demoGarden 1) ''taskComplete'' (JStr ''done'') switched)) 7) =
        [EventMsg (Some (JStr ''taskComplete'')) (Some (JStr ''done''))]
   \<and> sock_sent (srv_sockets (fst (gardenEmit (demoGarden 2) ''taskComplete'' (JStr ''done'') switched)) 7) = []
   \<and> anyListeners (buses (snd (wsClose 7 switched)) 1) = [SocketEventListener 7]"
  by (simp add: switched_eq withSocket_eq gardenEmit_def EventBus_emit_def demoGarden_def send_def
      demoServer_def GardenServer_new_def wsClose_def Let_def EventBus_offAny_def)

subsection \<open>Requests before a garden is attached\<close>

lemma send_handlers [simp]:
  "sock_hasHandlers (srv_sockets (send c m srv) c') = sock_hasHandlers (srv_sockets srv c')"
  by (simp add: send_def)

lemma invoke_handlers [simp]:
  "sock_hasHandlers (srv_sockets (invoke n p l srv) c') = sock_hasHandlers (srv_sockets srv c')"
  by (cases l) simp_all

lemma fold_invoke_handlers [simp]:
  "sock_hasHandlers (srv_sockets (fold (invoke n p) ls srv) c') = sock_hasHandlers (srv_sockets srv c')"
  by (induction ls arbitrary: srv) simp_all

lemma emitIncoming_handlers [simp]:
  "sock_hasHandlers (srv_sockets (emitIncoming n p srv) c') = sock_hasHandlers (srv_sockets srv c')"
  by (simp add: emitIncoming_def)

lemma emitEach_keeps:
  "srv_garden (snd (emitEach items srv)) = srv_garden srv
   \<and> sock_hasHandlers (srv_sockets (snd (emitEach items srv)) c') = sock_hasHandlers (srv_sockets srv c')"
  by (induction items srv rule: emitEach.induct) simp_all

lemma postEvents_keeps:
  "srv_garden (snd (postEvents h body srv)) = srv_garden srv
   \<and> sock_hasHandlers (srv_sockets (snd (postEvents h body srv)) c') = sock_hasHandlers (srv_sockets srv c')"
proof (cases "\<exists>items. h = Some (srv_authKey srv) \<and> getProp body ''events'' = Some (JArr items)")
  case True
  then obtain items where h: "h = Some (srv_authKey srv)" and e: "getProp body ''events'' = Some (JArr items)"
    by blast
  show ?thesis
    using emitEach_keeps [of items srv c']
    by (simp add: h postEvents_accepts [OF e] split: option.splits)
next
  case False
  show ?thesis
  proof (cases "h = Some (srv_authKey srv)")
    case True
    with False have "\<forall>items. getProp body ''events'' \<noteq> Some (JArr items)" by simp
    then show ?thesis using True
      by (cases "body = JNull")
        (auto simp: postEvents_def split: json.splits option.splits)
  next
    case False
    then show ?thesis by (simp add: postEvents_rejects)
  qed
qed

lemma postApi_keeps:
  "srv_garden (snd (postApi ai rr body srv)) = srv_garden srv
   \<and> srv_sockets (snd (postApi ai rr body srv)) = srv_sockets srv"
  by (simp add: postApi_def Let_def split: option.splits sum.splits)

lemma onMessage_keeps:
  "srv_garden (snd (onMessage iu rr c msg srv)) = srv_garden srv
   \<and> sock_hasHandlers (srv_sockets (snd (onMessage iu rr c msg srv)) c') = sock_hasHandlers (srv_sockets srv c')"
  by (simp add: onMessage_def Let_def split: WsInput.splits json.splits option.splits sum.splits)

lemma serverStep_inv:
  assumes "noHandlersWhileNotReady (fst sw)"
  shows "noHandlersWhileNotReady (fst (serverStep ai rr iu op sw))"
proof (cases op)
  case (OpSetGarden g)
  then show ?thesis by (simp add: noHandlersWhileNotReady_def setGarden_def Let_def)
next
  case (OpPostApi body)
  with assms show ?thesis by (simp add: noHandlersWhileNotReady_def postApi_keeps)
next
  case (OpPostEvents h body)
  with assms show ?thesis by (simp add: noHandlersWhileNotReady_def postEvents_keeps)
next
  case (OpWsConnect c)
  with assms show ?thesis
    by (simp add: noHandlersWhileNotReady_def wsConnect_def Let_def split: option.splits)
next
  case (OpWsClose c)
  with assms show ?thesis
    by (auto simp: noHandlersWhileNotReady_def wsClose_def Let_def)
next
  case (OpWsMessage c msg)
  with assms show ?thesis
    by (simp add: noHandlersWhileNotReady_def wsMessage_def onMessage_keeps)
next
  case (OpGardenEmit g n p)
  with assms show ?thesis
    by (simp add: noHandlersWhileNotReady_def gardenEmit_def)
qed

lemma runServer_inv:
  "noHandlersWhileNotReady (fst sw) \<Longrightarrow> noHandlersWhileNotReady (fst (runServer ai rr iu ops sw))"
  unfolding runServer_def
  by (induction ops arbitrary: sw) (simp_all add: serverStep_inv)

lemma new_server_inv: "noHandlersWhileNotReady (GardenServer_new key)"
  by (simp add: noHandlersWhileNotReady_def GardenServer_new_def)

lemma onMessage_command_notReady:
  assumes "srv_garden srv = None" and "requestId \<noteq> []" and "iu requestId"
    and "getProp request ''id'' = Some (JStr requestId)"
    and "getProp request ''type'' = Some (JStr ''command'')"
  shows "onMessage iu rr c (Parsed request) srv = (None, send c (ErrorMsg (Some requestId) notReadyMessage) srv)"
  using assms by (cases request) (simp_all add: onMessage_def)

lemma postApi_notReady:
  "srv_garden srv = None \<Longrightarrow>
   postApi ai rr body srv =
     (Inr (ctx0\<lparr>resp_status := 503, resp_body := Some (TextBody notReadyMessage)\<rparr>), srv)"
  by (simp add: postApi_def notReady_def)

lemma wsConnect_notReady:
  "srv_garden srv = None \<Longrightarrow>
   fst (wsConnect c (srv, w)) = Inl TypeError
   \<and> \<not> sock_hasHandlers (srv_sockets (fst (snd (wsConnect c (srv, w)))) c)
   \<and> sock_open (srv_sockets (fst (snd (wsConnect c (srv, w)))) c)
   \<and> srv_incomingEvents (fst (snd (wsConnect c (srv, w)))) = srv_incomingEvents srv
   \<and> snd (snd (wsConnect c (srv, w))) = w"
  by (simp add: wsConnect_def Let_def)

lemma unattached_socket_unanswered:
  assumes "srv = fst (runServer ai rr iu ops (GardenServer_new key, w0))" and "srv_garden srv = None"
  shows "wsMessage iu rr c msg srv = (None, srv)"
proof -
  have "noHandlersWhileNotReady (fst (runServer ai rr iu ops (GardenServer_new key, w0)))"
    by (rule runServer_inv) (simp add: new_server_inv)
  with assms have "\<not> sock_hasHandlers (srv_sockets srv c)"
    by (simp add: noHandlersWhileNotReady_def)
  then show ?thesis by (simp add: wsMessage_def)
qed

lemma earlySocket_eq:
  "fst earlySocket = demoServer\<lparr>srv_sockets := (srv_sockets demoServer)
      (7 := \<lparr>sock_open = True, sock_hasHandlers = False, sock_sent = []\<rparr>)\<rparr>"
  "snd earlySocket = demoWorld"
  by (simp_all add: earlySocket_def wsConnect_def Let_def demoServer_def GardenServer_new_def)

lemma earlySocket_handler_reply:
  "onMessage demoIsUuid demoResolve 7 (Parsed demoCommand) (fst earlySocket) =
     (None, send 7 (ErrorMsg (Some demoUuid) notReadyMessage) (fst earlySocket))"
proof -
  have g: "srv_garden (fst earlySocket) = None"
    by (simp add: earlySocket_eq demoServer_def GardenServer_new_def)
  have u: "demoUuid \<noteq> []" by (simp add: demoUuid_def)
  have i: "demoIsUuid demoUuid" by (simp add: demoIsUuid_def)
  have a: "getProp demoCommand ''id'' = Some (JStr demoUuid)"
    and b: "getProp demoCommand ''type'' = Some (JStr ''command'')"
    by (simp_all add: demoCommand_def)
  show ?thesis
    by (rule onMessage_command_notReady [where iu = demoIsUuid and requestId = demoUuid, OF g u i a b])
qed

text \<open>
  C5 at a concrete input. On a new server, before any garden is attached, \<^verbatim>\<open>POST /api\<close> is
  answered with status 503 and the fixed message and the server is unchanged, as the claim
  says. Connection 7 then opens on \<^verbatim>\<open>/ws\<close>: the route throws in \<^verbatim>\<open>notReady\<close> and
  registers no handler, the socket stays open. The well-formed command request sent on it
  changes nothing and nothing is sent back, although the \<^verbatim>\<open>message\<close> handler, had it
  been registered, would have sent \<open>error{requestId, notReadyMessage}\<close>.
\<close>

theorem early_socket_command_unanswered:
  "srv_garden demoServer = None
   \<and> postApi (\<lambda>g. True) demoResolve demoCommand demoServer =
       (Inr \<lparr>resp_status = 503, resp_body = Some (TextBody ''Waiting for Garden instance to initialize'')\<rparr>,
        demoServer)
   \<and> fst (wsConnect 7 (demoServer, demoWorld)) = Inl TypeError
   \<and> srv_garden (fst earlySocket) = None
   \<and> sock_open (srv_sockets (fst earlySocket) 7)
   \<and> sock_hasHandlers (srv_sockets (fst earlySocket) 7) = False
   \<and> getProp demoCommand ''id'' = Some (JStr demoUuid) \<and> demoIsUuid demoUuid
   \<and> getProp demoCommand ''type'' = Some (JStr ''command'')
   \<and> wsMessage demoIsUuid demoResolve 7 (Parsed demoCommand) (fst earlySocket) = (None, fst earlySocket)
   \<and> sock_sent (srv_sockets (snd (wsMessage demoIsUuid demoResolve 7 (Parsed demoCommand) (fst earlySocket))) 7) = []
   \<and> sock_sent (srv_sockets (snd (onMessage demoIsUuid demoResolve 7 (Parsed demoCommand) (fst earlySocket))) 7) =
       [ErrorMsg (Some demoUuid) ''Waiting for Garden instance to initialize'']"
proof -
  have g0: "srv_garden demoServer = None"
    by (simp add: demoServer_def GardenServer_new_def)
  have api: "postApi (\<lambda>g. True) demoResolve demoCommand demoServer =
       (Inr \<lparr>resp_status = 503, resp_body = Some (TextBody ''Waiting for Garden instance to initialize'')\<rparr>,
        demoServer)"
    by (simp add: postApi_notReady [OF g0] ctx0_def notReadyMessage_def)
  have ws: "fst (wsConnect 7 (demoServer, demoWorld)) = Inl TypeError"
    using wsConnect_notReady [OF g0] by blast
  have st: "srv_garden (fst earlySocket) = None" "sock_open (srv_sockets (fst earlySocket) 7)"
    "sock_hasHandlers (srv_sockets (fst earlySocket) 7) = False"
    by (simp_all add: earlySocket_eq demoServer_def GardenServer_new_def)
  have rq: "getProp demoCommand ''id'' = Some (JStr demoUuid)" "demoIsUuid demoUuid"
    "getProp demoCommand ''type'' = Some (JStr ''command'')"
    by (simp_all add: demoCommand_def demoIsUuid_def)
  have msg: "wsMessage demoIsUuid demoResolve 7 (Parsed demoCommand) (fst earlySocket) = (None, fst earlySocket)"
    using st(3) by (simp add: wsMessage_def)
  have none: "sock_sent (srv_sockets (fst earlySocket) 7) = []"
    by (simp add: earlySocket_eq)
  have reply: "sock_sent (srv_sockets (snd (onMessage demoIsUuid demoResolve 7 (Parsed demoCommand) (fst earlySocket))) 7) =
       [ErrorMsg (Some demoUuid) ''Waiting for Garden instance to initialize'']"
    unfolding earlySocket_handler_reply
    by (simp add: send_def earlySocket_eq notReadyMessage_def)
  show ?thesis
    using g0 api ws st rq reply by (simp add: msg none)
qed

end
